theory Spec2Isabelle
  imports Complex_Main
begin

section \<open>Configuration and market data\<close>

text \<open>
  The embedding follows \<^verbatim>\<open>src/arb_bot.py\<close>. Python floats are idealised as exact
  rationals (\<^typ>\<open>rat\<close>): every arithmetic result is the exact one, where a double
  differs from it by a relative rounding error of at most \<open>2^-53\<close> per operation. Facts
  about concrete amounts are therefore stated with tolerances and with thresholds away
  from the computed values. Python strings are byte lists in UTF-8. The class
  \<^verbatim>\<open>Config\<close> is a record whose fields are fixed at process start.
\<close>

record config =
  DRY_RUN :: bool
  TRADE_AMOUNT :: rat
  MIN_PROFIT :: rat
  SCAN_INTERVAL :: rat
  MAX_TRIANGLES :: int

text \<open>
  A market is one value of the dictionary returned by \<^verbatim>\<open>load_markets\<close>. The key
  \<^verbatim>\<open>'active'\<close> is read with \<^verbatim>\<open>market.get('active', True)\<close>: \<open>None\<close> is the absent
  key, which counts as active, and \<open>Some a\<close> carries the truth value of the stored value.
\<close>

record market =
  base :: string
  quote :: string
  active :: "bool option"

text \<open>An edge is the tuple \<^verbatim>\<open>(neighbour, symbol, direction)\<close>.\<close>

type_synonym edge = "string \<times> string \<times> string"

type_synonym adjacency = "string \<rightharpoonup> edge list"

record triangle =
  path :: "string list"
  pairs :: "string list"
  directions :: "string list"
  tri_string :: string

section \<open>TriangleScanner: the pair graph\<close>

text \<open>\<^verbatim>\<open>adj[k].append(e)\<close> on a \<^verbatim>\<open>defaultdict(list)\<close>: a missing key starts from the empty list.\<close>

definition adj_append :: "adjacency \<Rightarrow> string \<Rightarrow> edge \<Rightarrow> adjacency" where
  "adj_append adj k e = adj(k \<mapsto> (case adj k of None \<Rightarrow> [] | Some es \<Rightarrow> es) @ [e])"

text \<open>\<^verbatim>\<open>adj.get(k, [])\<close>, which does not create the key.\<close>

definition adj_get :: "adjacency \<Rightarrow> string \<Rightarrow> edge list" where
  "adj_get adj k = (case adj k of None \<Rightarrow> [] | Some es \<Rightarrow> es)"

text \<open>The loop of \<^verbatim>\<open>build_adjacency\<close> over \<^verbatim>\<open>self.markets.items()\<close>, in dictionary order.\<close>

fun build_adjacency_from :: "adjacency \<Rightarrow> (string \<times> market) list \<Rightarrow> adjacency" where
  "build_adjacency_from adj [] = adj"
| "build_adjacency_from adj ((symbol, m) # rest) =
     (if \<not> (case active m of None \<Rightarrow> True | Some a \<Rightarrow> a) then build_adjacency_from adj rest
      else if quote m \<noteq> ''USDT'' \<and> base m \<noteq> ''USDT'' then build_adjacency_from adj rest
      else build_adjacency_from
             (adj_append (adj_append adj (base m) (quote m, symbol, ''buy''))
                (quote m) (base m, symbol, ''sell''))
             rest)"

definition build_adjacency :: "(string \<times> market) list \<Rightarrow> adjacency" where
  "build_adjacency markets = build_adjacency_from Map.empty markets"

text \<open>The separator of the display string, a right arrow (U+2192) between two spaces.\<close>

definition arrow :: string where
  "arrow = '' '' @ [CHR 0xE2, CHR 0x86, CHR 0x92] @ '' ''"

definition mk_triangle :: "string \<Rightarrow> edge \<Rightarrow> edge \<Rightarrow> edge \<Rightarrow> triangle" where
  "mk_triangle start e1 e2 e3 =
     (case e1 of (b, sab, dab) \<Rightarrow> case e2 of (c, sbc, dbc) \<Rightarrow> case e3 of (back, sca, dca) \<Rightarrow>
        \<lparr>path = [start, b, c], pairs = [sab, sbc, sca], directions = [dab, dbc, dca],
         tri_string = start @ arrow @ b @ arrow @ c @ arrow @ start\<rparr>)"

text \<open>The innermost loop: edges leaving \<open>c\<close> that lead back to the start.\<close>

fun close_loop :: "string \<Rightarrow> edge \<Rightarrow> edge \<Rightarrow> edge list \<Rightarrow> triangle list" where
  "close_loop start e1 e2 [] = []"
| "close_loop start e1 e2 (e3 # es) =
     (if fst e3 = start then mk_triangle start e1 e2 e3 # close_loop start e1 e2 es
      else close_loop start e1 e2 es)"

text \<open>The middle loop: edges leaving \<open>b\<close>, skipping those whose target is the start.\<close>

fun middle_loop :: "adjacency \<Rightarrow> string \<Rightarrow> edge \<Rightarrow> edge list \<Rightarrow> triangle list" where
  "middle_loop adj start e1 [] = []"
| "middle_loop adj start e1 (e2 # es) =
     (if fst e2 = start then middle_loop adj start e1 es
      else close_loop start e1 e2 (adj_get adj (fst e2)) @ middle_loop adj start e1 es)"

text \<open>The outer loop: edges leaving the start.\<close>

fun outer_loop :: "adjacency \<Rightarrow> string \<Rightarrow> edge list \<Rightarrow> triangle list" where
  "outer_loop adj start [] = []"
| "outer_loop adj start (e1 # es) =
     middle_loop adj start e1 (adj_get adj (fst e1)) @ outer_loop adj start es"

text \<open>The slice \<^verbatim>\<open>xs[:n]\<close>: a negative bound counts from the end.\<close>

definition py_slice_to :: "int \<Rightarrow> 'a list \<Rightarrow> 'a list" where
  "py_slice_to n xs = (if 0 \<le> n then take (nat n) xs else take (length xs - nat (- n)) xs)"

definition find_triangles :: "config \<Rightarrow> (string \<times> market) list \<Rightarrow> triangle list" where
  "find_triangles cfg markets =
     (let adj = build_adjacency markets; start = ''USDT'' in
      case adj start of
        None \<Rightarrow> []
      | Some es \<Rightarrow> py_slice_to (MAX_TRIANGLES cfg) (outer_loop adj start es))"


section \<open>SimpleOrderBook\<close>

text \<open>A price level is the pair \<^verbatim>\<open>[price, volume]\<close>.\<close>

type_synonym level = "rat \<times> rat"

record snapshot =
  bids :: "level list"
  asks :: "level list"
  timestamp :: rat

type_synonym orderbooks = "string \<rightharpoonup> snapshot"

text \<open>
  \<^verbatim>\<open>update\<close> and \<^verbatim>\<open>get\<close> as one thread runs them; \<open>now\<close> is the reading of
  \<^verbatim>\<open>time.time()\<close>. The lock and the interleaving of threads are outside this model.
\<close>

definition orderbook_update :: "orderbooks \<Rightarrow> string \<Rightarrow> level list \<Rightarrow> level list \<Rightarrow> rat \<Rightarrow> orderbooks" where
  "orderbook_update obs symbol bs as now = obs(symbol \<mapsto> \<lparr>bids = bs, asks = as, timestamp = now\<rparr>)"

definition orderbook_get :: "orderbooks \<Rightarrow> string \<Rightarrow> snapshot option" where
  "orderbook_get obs symbol = obs symbol"

section \<open>TriangleScanner: simulation\<close>

datatype py_exception = ZeroDivisionError

record opportunity =
  opp_triangle :: string
  opp_pairs :: "string list"
  profit_pct :: rat
  profit_usd :: rat
  opp_timestamp :: string

text \<open>
  The walk over the bids of a \<^verbatim>\<open>'sell'\<close> leg. The result is
  \<open>(remaining, received)\<close> when the loop ends, by \<^verbatim>\<open>break\<close> or by exhaustion.
\<close>

fun walk_bids :: "level list \<Rightarrow> rat \<Rightarrow> rat \<Rightarrow> rat \<times> rat" where
  "walk_bids [] remaining received = (remaining, received)"
| "walk_bids ((price, volume) # rest) remaining received =
     (if volume \<ge> remaining then (0, received + remaining * price)
      else walk_bids rest (remaining - volume) (received + volume * price))"

text \<open>
  The walk over the asks of a buy leg, \<open>(remaining, acquired)\<close> at the end. The division
  \<^verbatim>\<open>remaining / price\<close> raises on a zero price.
\<close>

fun walk_asks :: "level list \<Rightarrow> rat \<Rightarrow> rat \<Rightarrow> py_exception + rat \<times> rat" where
  "walk_asks [] remaining acquired = Inr (remaining, acquired)"
| "walk_asks ((price, volume) # rest) remaining acquired =
     (let cost = price * volume in
      if cost \<le> remaining then walk_asks rest (remaining - cost) (acquired + volume)
      else if price = 0 then Inl ZeroDivisionError
      else Inr (0, acquired + remaining / price))"

text \<open>
  One iteration of the loop over the legs: \<open>Inl\<close> is a raised exception, \<open>Inr None\<close> is
  \<^verbatim>\<open>return None\<close>, \<open>Inr (Some c)\<close> is the amount after the fee of 0.1 percent.
\<close>

definition simulate_leg :: "orderbooks \<Rightarrow> string \<Rightarrow> string \<Rightarrow> rat \<Rightarrow> py_exception + rat option" where
  "simulate_leg obs pair direction current =
     (case orderbook_get obs pair of
        None \<Rightarrow> Inr None
      | Some ob \<Rightarrow>
          if direction = ''sell'' then
            (case walk_bids (bids ob) current 0 of
               (remaining, received) \<Rightarrow>
                 if remaining > 1 / 100000 then Inr None
                 else Inr (Some (received * (999 / 1000))))
          else
            (case walk_asks (asks ob) current 0 of
               Inl e \<Rightarrow> Inl e
             | Inr (remaining, acquired) \<Rightarrow>
                 if remaining > 1 / 100000 then Inr None
                 else Inr (Some (acquired * (999 / 1000)))))"

fun simulate_legs :: "orderbooks \<Rightarrow> (string \<times> string) list \<Rightarrow> rat \<Rightarrow> py_exception + rat option" where
  "simulate_legs obs [] current = Inr (Some current)"
| "simulate_legs obs ((pair, direction) # rest) current =
     (case simulate_leg obs pair direction current of
        Inl e \<Rightarrow> Inl e
      | Inr None \<Rightarrow> Inr None
      | Inr (Some c) \<Rightarrow> simulate_legs obs rest c)"

text \<open>\<^verbatim>\<open>round(x, ndigits)\<close> on the exact value: to the nearest, ties to the even digit.\<close>

definition py_round :: "rat \<Rightarrow> nat \<Rightarrow> rat" where
  "py_round x ndigits =
     (let s = x * 10 ^ ndigits; f = \<lfloor>s\<rfloor>; d = s - of_int f in
      of_int (if d < 1 / 2 then f else if d > 1 / 2 then f + 1 else if even f then f else f + 1)
        / 10 ^ ndigits)"

text \<open>
  The body of the \<^verbatim>\<open>try\<close> block of \<^verbatim>\<open>simulate_triangle\<close>; \<open>now\<close> is the clock string
  \<^verbatim>\<open>datetime.now().strftime('%H:%M:%S')\<close>.
\<close>

definition simulate_body :: "config \<Rightarrow> orderbooks \<Rightarrow> triangle \<Rightarrow> rat \<Rightarrow> string \<Rightarrow> py_exception + opportunity option" where
  "simulate_body cfg obs tri amount now =
     (case simulate_legs obs (zip (pairs tri) (directions tri)) amount of
        Inl e \<Rightarrow> Inl e
      | Inr None \<Rightarrow> Inr None
      | Inr (Some current) \<Rightarrow>
          (let profit = current - amount in
           if amount = 0 then Inl ZeroDivisionError
           else
             (let pct = (profit / amount) * 100 in
              if pct < MIN_PROFIT cfg then Inr None
              else Inr (Some \<lparr>opp_triangle = tri_string tri, opp_pairs = pairs tri,
                               profit_pct = py_round pct 3, profit_usd = py_round profit 2,
                               opp_timestamp = now\<rparr>))))"

text \<open>The handler \<^verbatim>\<open>except Exception\<close> prints the error and returns \<^verbatim>\<open>None\<close>.\<close>

definition simulate_triangle :: "config \<Rightarrow> orderbooks \<Rightarrow> triangle \<Rightarrow> rat \<Rightarrow> string \<Rightarrow> opportunity option" where
  "simulate_triangle cfg obs tri amount now =
     (case simulate_body cfg obs tri amount now of Inl e \<Rightarrow> None | Inr r \<Rightarrow> r)"



text \<open>
  The profit percentage \<^verbatim>\<open>(profit / amount) * 100\<close> the source computes before it rounds,
  for a triangle whose legs all fill.
\<close>

definition full_profit_pct :: "orderbooks \<Rightarrow> triangle \<Rightarrow> rat \<Rightarrow> rat option" where
  "full_profit_pct obs tri amount =
     (case simulate_legs obs (zip (pairs tri) (directions tri)) amount of
        Inr (Some current) \<Rightarrow> if amount = 0 then None else Some (((current - amount) / amount) * 100)
      | _ \<Rightarrow> None)"

section \<open>TradeExecutor\<close>

record trade =
  trade_id :: string
  trade_triangle :: string
  trade_profit_pct :: rat
  trade_profit_usd :: rat
  status :: string
  error :: "string option"
  trade_timestamp :: string

record trade_stats =
  total_trades :: int
  profitable :: int
  total_profit :: rat
  best_trade :: rat

text \<open>
  Modelled from the spec: the external order-submission capability
  \<^verbatim>\<open>submitLeg(pairSymbol, side, amount) -> ack | error\<close> of the exchange object, which the
  executor keeps in \<^verbatim>\<open>self.exchange\<close>; \<open>Inl\<close> is the error.
\<close>

record exchange =
  submitLeg :: "string \<Rightarrow> string \<Rightarrow> rat \<Rightarrow> string + unit"

record executor =
  exchange_of :: exchange
  trades :: "trade list"
  stats :: trade_stats

text \<open>Console lines and delays, in the order the code produces them.\<close>

datatype event =
  Found_notice string
  | Dry_run_notice
  | Executing_notice
  | Leg_notice nat string
  | Sleep rat
  | Completed_notice
  | Failed_notice string
  | Scan_notice int
  | Idle_notice int

definition executor_init :: "exchange \<Rightarrow> executor" where
  "executor_init ex =
     \<lparr>exchange_of = ex, trades = [],
      stats = \<lparr>total_trades = 0, profitable = 0, total_profit = 0, best_trade = 0\<rparr>\<rparr>"

text \<open>\<^verbatim>\<open>appendleft\<close> on a \<^verbatim>\<open>deque(maxlen=n)\<close>: a full deque drops its last item.\<close>

definition appendleft :: "nat \<Rightarrow> 'a \<Rightarrow> 'a list \<Rightarrow> 'a list" where
  "appendleft maxlen x xs = take maxlen (x # xs)"

text \<open>\<^verbatim>\<open>int(x)\<close> truncates towards zero; \<^verbatim>\<open>str\<close> of an integer is its decimal numeral.\<close>

definition py_int :: "rat \<Rightarrow> int" where
  "py_int x = (if 0 \<le> x then \<lfloor>x\<rfloor> else \<lceil>x\<rceil>)"

definition digit :: "nat \<Rightarrow> char" where
  "digit n = ''0123456789'' ! n"

function str_nat :: "nat \<Rightarrow> string" where
  "n < 10 \<Longrightarrow> str_nat n = [digit n]"
| "\<not> n < 10 \<Longrightarrow> str_nat n = str_nat (n div 10) @ [digit (n mod 10)]"
  by (atomize_elim, auto)
termination
  by (relation "measure (\<lambda>n. n)") auto

definition str_int :: "int \<Rightarrow> string" where
  "str_int i = (if i < 0 then ''-'' @ str_nat (nat (- i)) else str_nat (nat i))"

text \<open>The loop over the legs in live mode: a console line and a delay of 0.1 s per leg.\<close>

fun live_legs :: "nat \<Rightarrow> string list \<Rightarrow> event list" where
  "live_legs i [] = []"
| "live_legs i (pair # rest) = Leg_notice (i + 1) pair # Sleep (1 / 10) # live_legs (i + 1) rest"

text \<open>
  The \<^verbatim>\<open>try\<close> block of live mode; \<open>Inl\<close> would carry \<^verbatim>\<open>str(e)\<close> of a raised exception.
  Nothing in the block raises.
\<close>

definition execute_live_try :: "string \<Rightarrow> opportunity \<Rightarrow> string \<Rightarrow> string + trade \<times> event list" where
  "execute_live_try tid opp stamp =
     Inr (\<lparr>trade_id = tid, trade_triangle = opp_triangle opp,
           trade_profit_pct = profit_pct opp, trade_profit_usd = profit_usd opp,
           status = ''executed'', error = None, trade_timestamp = stamp\<rparr>,
          Executing_notice # live_legs 0 (opp_pairs opp) @ [Completed_notice])"

definition update_stats :: "trade_stats \<Rightarrow> trade \<Rightarrow> trade_stats" where
  "update_stats st trade_result =
     (let st1 = st\<lparr>total_trades := total_trades st + 1\<rparr> in
      if trade_profit_usd trade_result > 0 then
        (let st2 = st1\<lparr>profitable := profitable st1 + 1,
                       total_profit := total_profit st1 + trade_profit_usd trade_result\<rparr> in
         if trade_profit_usd trade_result > best_trade st2
         then st2\<lparr>best_trade := trade_profit_usd trade_result\<rparr> else st2)
      else st1)"

text \<open>
  \<^verbatim>\<open>execute\<close>; \<open>t\<close> is the reading of \<^verbatim>\<open>time.time()\<close> and \<open>stamp\<close> the string
  \<^verbatim>\<open>datetime.now().isoformat()\<close>. The result is the new executor, the trade returned and the
  console lines and delays.
\<close>

definition execute :: "config \<Rightarrow> executor \<Rightarrow> opportunity \<Rightarrow> rat \<Rightarrow> string \<Rightarrow> executor \<times> trade \<times> event list" where
  "execute cfg ex opp t stamp =
     (let tid = ''TR'' @ str_int (py_int t);
          (trade_result, evs) =
            (if DRY_RUN cfg then
               (\<lparr>trade_id = tid, trade_triangle = opp_triangle opp,
                 trade_profit_pct = profit_pct opp, trade_profit_usd = profit_usd opp,
                 status = ''dry_run'', error = None, trade_timestamp = stamp\<rparr>,
                [Dry_run_notice])
             else
               (case execute_live_try tid opp stamp of
                  Inr r \<Rightarrow> r
                | Inl err \<Rightarrow>
                    (\<lparr>trade_id = tid, trade_triangle = opp_triangle opp,
                      trade_profit_pct = 0, trade_profit_usd = 0,
                      status = ''failed'', error = Some err, trade_timestamp = stamp\<rparr>,
                     [Failed_notice err])))
      in (ex\<lparr>trades := appendleft 100 trade_result (trades ex),
              stats := update_stats (stats ex) trade_result\<rparr>,
          trade_result,
          Found_notice (opp_triangle opp) # evs))"

text \<open>A sequence of calls of \<^verbatim>\<open>execute\<close>, each with its opportunity and clock readings.\<close>

fun execute_all :: "config \<Rightarrow> executor \<Rightarrow> (opportunity \<times> rat \<times> string) list \<Rightarrow> executor \<times> trade list" where
  "execute_all cfg ex [] = (ex, [])"
| "execute_all cfg ex ((opp, t, stamp) # rest) =
     (case execute cfg ex opp t stamp of
        (ex', trade_result, evs) \<Rightarrow>
          (case execute_all cfg ex' rest of (ex'', results) \<Rightarrow> (ex'', trade_result # results)))"

section \<open>The main trading loop\<close>

record scheduler =
  scan_count :: int
  last_opportunity_time :: rat
  executor_of :: executor

text \<open>
  The clock readings of one pass of the loop: the string stamped on simulation results,
  \<^verbatim>\<open>time.time()\<close> in the cooldown test, \<^verbatim>\<open>time.time()\<close> stored as the last trigger
  time, and the two readings inside \<^verbatim>\<open>execute\<close>.
\<close>

record clock =
  now_hms :: string
  t_check :: rat
  t_set :: rat
  t_exec :: rat
  now_iso :: string

text \<open>The loop over \<^verbatim>\<open>scanner.triangles\<close> that keeps the best result so far.\<close>

fun scan_loop :: "config \<Rightarrow> orderbooks \<Rightarrow> string \<Rightarrow> triangle list \<Rightarrow> opportunity option \<Rightarrow> rat \<Rightarrow> opportunity option \<times> rat" where
  "scan_loop cfg obs now [] best_opportunity best_profit = (best_opportunity, best_profit)"
| "scan_loop cfg obs now (tri # rest) best_opportunity best_profit =
     (case simulate_triangle cfg obs tri (TRADE_AMOUNT cfg) now of
        None \<Rightarrow> scan_loop cfg obs now rest best_opportunity best_profit
      | Some result \<Rightarrow>
          if profit_pct result > best_profit
          then scan_loop cfg obs now rest (Some result) (profit_pct result)
          else scan_loop cfg obs now rest best_opportunity best_profit)"

text \<open>
  One pass of \<^verbatim>\<open>while True\<close>: the new state, the opportunity handed to \<^verbatim>\<open>execute\<close> if
  any, and the console lines and delays. The order books are read as they stand during
  the pass.
\<close>

definition tick :: "config \<Rightarrow> triangle list \<Rightarrow> orderbooks \<Rightarrow> clock \<Rightarrow> scheduler \<Rightarrow> scheduler \<times> opportunity option \<times> event list" where
  "tick cfg triangles obs clk s =
     (let s1 = s\<lparr>scan_count := scan_count s + 1\<rparr>;
          (best_opportunity, best_profit) = scan_loop cfg obs (now_hms clk) triangles None 0
      in case best_opportunity of
           None \<Rightarrow>
             (s1, None,
              (if scan_count s1 mod 10 = 0 then [Idle_notice (scan_count s1)] else [])
                @ [Sleep (SCAN_INTERVAL cfg)])
         | Some opp \<Rightarrow>
             if best_profit \<ge> MIN_PROFIT cfg then
               (if t_check clk - last_opportunity_time s1 < 2 then (s1, None, [])
                else
                  (case execute cfg (executor_of s1) opp (t_exec clk) (now_iso clk) of
                     (ex', trade_result, evs) \<Rightarrow>
                       (s1\<lparr>last_opportunity_time := t_set clk, executor_of := ex'\<rparr>,
                        Some opp,
                        evs @ [Scan_notice (scan_count s1), Sleep (SCAN_INTERVAL cfg)])))
             else
               (s1, None,
                (if scan_count s1 mod 10 = 0 then [Idle_notice (scan_count s1)] else [])
                  @ [Sleep (SCAN_INTERVAL cfg)]))"

text \<open>Finitely many passes, each with the order books and clock readings it sees.\<close>

fun run_ticks :: "config \<Rightarrow> triangle list \<Rightarrow> scheduler \<Rightarrow> (orderbooks \<times> clock) list \<Rightarrow> scheduler \<times> opportunity list" where
  "run_ticks cfg triangles s [] = (s, [])"
| "run_ticks cfg triangles s ((obs, clk) # rest) =
     (case tick cfg triangles obs clk s of
        (s', dispatched, evs) \<Rightarrow>
          (case run_ticks cfg triangles s' rest of
             (s'', ds) \<Rightarrow> (s'', (case dispatched of None \<Rightarrow> [] | Some opp \<Rightarrow> [opp]) @ ds)))"

text \<open>The clock readings of a run lie within a window shorter than \<open>w\<close> seconds.\<close>

definition readings :: "(orderbooks \<times> clock) list \<Rightarrow> rat list" where
  "readings inputs = concat (map (\<lambda>(obs, clk). [t_check clk, t_set clk]) inputs)"

definition span_less :: "(orderbooks \<times> clock) list \<Rightarrow> rat \<Rightarrow> bool" where
  "span_less inputs w \<longleftrightarrow> (\<forall>a \<in> set (readings inputs). \<forall>b \<in> set (readings inputs). a - b < w)"

section \<open>Invariant of the pair graph\<close>

text \<open>Every edge has exactly one end at the hub asset.\<close>

definition hub_star :: "adjacency \<Rightarrow> bool" where
  "hub_star adj \<longleftrightarrow>
     (\<forall>k es e. adj k = Some es \<longrightarrow> e \<in> set es \<longrightarrow> (k = ''USDT'') \<noteq> (fst e = ''USDT''))"

section \<open>Example inputs\<close>

definition example_config :: config where
  "example_config =
     \<lparr>DRY_RUN = True, TRADE_AMOUNT = 3, MIN_PROFIT = 3 / 10, SCAN_INTERVAL = 3 / 10,
      MAX_TRIANGLES = 500\<rparr>"

definition example_markets :: "(string \<times> market) list" where
  "example_markets =
     [(''BTC/USDT'', \<lparr>base = ''BTC'', quote = ''USDT'', active = Some True\<rparr>),
      (''ETH/USDT'', \<lparr>base = ''ETH'', quote = ''USDT'', active = Some True\<rparr>),
      (''ETH/BTC'', \<lparr>base = ''ETH'', quote = ''BTC'', active = Some True\<rparr>)]"

text \<open>The order books and the triangle of the worked example.\<close>

definition example_books :: orderbooks where
  "example_books =
     orderbook_update
       (orderbook_update
          (orderbook_update Map.empty ''BTC/USDT'' [] [(20000, 1)] 0)
          ''ETH/BTC'' [] [(1 / 20, 10)] 0)
       ''ETH/USDT'' [(1050, 10)] [] 0"

definition example_triangle :: triangle where
  "example_triangle =
     \<lparr>path = [''USDT'', ''BTC'', ''ETH''],
      pairs = [''BTC/USDT'', ''ETH/BTC'', ''ETH/USDT''],
      directions = [''buy'', ''buy'', ''sell''],
      tri_string = ''USDT'' @ arrow @ ''BTC'' @ arrow @ ''ETH'' @ arrow @ ''USDT''\<rparr>"

text \<open>A scheduler that has not yet triggered, and the clock readings of one pass.\<close>

definition example_exchange :: exchange where
  "example_exchange = \<lparr>submitLeg = (\<lambda>pair side amount. Inr ())\<rparr>"

definition example_scheduler :: scheduler where
  "example_scheduler =
     \<lparr>scan_count = 0, last_opportunity_time = 0, executor_of = executor_init example_exchange\<rparr>"

definition example_clock :: clock where
  "example_clock =
     \<lparr>now_hms = ''12:00:00'', t_check = 1700000000, t_set = 1700000000,
      t_exec = 1700000000, now_iso = ''2023-11-14T12:00:00''\<rparr>"

text \<open>One active market with base BTC and quote USDT.\<close>

definition btc_usdt_markets :: "(string \<times> market) list" where
  "btc_usdt_markets = [(''BTC/USDT'', \<lparr>base = ''BTC'', quote = ''USDT'', active = Some True\<rparr>)]"


text \<open>
  A second triangle through BNB whose final bid is 1050.001, and order books for both
  triangles.
\<close>

definition second_triangle :: triangle where
  "second_triangle =
     \<lparr>path = [''USDT'', ''BTC'', ''BNB''],
      pairs = [''BTC/USDT'', ''BNB/BTC'', ''BNB/USDT''],
      directions = [''buy'', ''buy'', ''sell''],
      tri_string = ''USDT'' @ arrow @ ''BTC'' @ arrow @ ''BNB'' @ arrow @ ''USDT''\<rparr>"

definition rounding_books :: orderbooks where
  "rounding_books =
     orderbook_update
       (orderbook_update example_books ''BNB/BTC'' [] [(1 / 20, 10)] 0)
       ''BNB/USDT'' [(1050001 / 1000, 10)] [] 0"

text \<open>Live mode, an exchange that rejects every order, and one opportunity.\<close>

definition live_config :: config where
  "live_config = example_config\<lparr>DRY_RUN := False\<rparr>"

definition failing_exchange :: exchange where
  "failing_exchange = \<lparr>submitLeg = (\<lambda>pair side amount. Inl ''rejected'')\<rparr>"

definition example_opportunity :: opportunity where
  "example_opportunity =
     \<lparr>opp_triangle = tri_string example_triangle, opp_pairs = pairs example_triangle,
      profit_pct = 4685 / 1000, profit_usd = 14 / 100, opp_timestamp = ''12:00:00''\<rparr>"

text \<open>Two passes of the main loop, one second apart.\<close>

definition later_clock :: clock where
  "later_clock =
     \<lparr>now_hms = ''12:00:01'', t_check = 1700000001, t_set = 1700000001,
      t_exec = 1700000001, now_iso = ''2023-11-14T12:00:01''\<rparr>"

definition two_passes :: "(orderbooks \<times> clock) list" where
  "two_passes = [(rounding_books, example_clock), (rounding_books, later_clock)]"


section \<open>The pair graph never closes a triangle\<close>

lemma hub_star_append:
  assumes inv: "hub_star adj"
    and new: "(k' = ''USDT'') \<noteq> (fst e' = ''USDT'')"
  shows "hub_star (adj_append adj k' e')"
  unfolding hub_star_def
proof (intro allI impI)
  fix k es e
  assume look: "adj_append adj k' e' k = Some es" and mem: "e \<in> set es"
  show "(k = ''USDT'') \<noteq> (fst e = ''USDT'')"
  proof (cases "k = k'")
    case False
    with look have "adj k = Some es" by (simp add: adj_append_def)
    with inv mem show ?thesis unfolding hub_star_def by blast
  next
    case True
    show ?thesis
    proof (cases "adj k'")
      case None
      with look True have "es = [e']" by (simp add: adj_append_def)
      with mem new True show ?thesis by simp
    next
      case (Some old)
      with look True have es: "es = old @ [e']" by (simp add: adj_append_def)
      show ?thesis
      proof (cases "e = e'")
        case True
        with new \<open>k = k'\<close> show ?thesis by simp
      next
        case False
        with es mem have "e \<in> set old" by simp
        with inv Some \<open>k = k'\<close> show ?thesis unfolding hub_star_def by blast
      qed
    qed
  qed
qed


lemma hub_star_build:
  "hub_star adj \<Longrightarrow> \<forall>(s, m) \<in> set markets. base m \<noteq> quote m \<Longrightarrow>
   hub_star (build_adjacency_from adj markets)"
proof (induction markets arbitrary: adj)
  case Nil
  then show ?case by simp
next
  case (Cons p rest)
  obtain symbol m where p: "p = (symbol, m)" by (cases p)
  have neq: "base m \<noteq> quote m" using Cons.prems(2) p by simp
  have rest: "\<forall>(s, m) \<in> set rest. base m \<noteq> quote m" using Cons.prems(2) by simp
  let ?a1 = "adj_append adj (base m) (quote m, symbol, ''buy'')"
  let ?a2 = "adj_append ?a1 (quote m) (base m, symbol, ''sell'')"
  show ?case
  proof (cases "(case active m of None \<Rightarrow> True | Some a \<Rightarrow> a) \<and> (quote m = ''USDT'' \<or> base m = ''USDT'')")
    case False
    then have skip: "build_adjacency_from adj (p # rest) = build_adjacency_from adj rest"
      unfolding p by auto
    show ?thesis unfolding skip by (rule Cons.IH [OF Cons.prems(1) rest])
  next
    case True
    then have add: "build_adjacency_from adj (p # rest) = build_adjacency_from ?a2 rest"
      unfolding p by auto
    have e1: "(base m = ''USDT'') \<noteq> (fst (quote m, symbol, ''buy'') = ''USDT'')"
      using True neq by auto
    have e2: "(quote m = ''USDT'') \<noteq> (fst (base m, symbol, ''sell'') = ''USDT'')"
      using True neq by auto
    have i2: "hub_star ?a2"
      by (rule hub_star_append [OF hub_star_append [OF Cons.prems(1) e1] e2])
    show ?thesis unfolding add by (rule Cons.IH [OF i2 rest])
  qed
qed


lemma middle_loop_all_back:
  "\<forall>e \<in> set es. fst e = start \<Longrightarrow> middle_loop adj start e1 es = []"
  by (induction es) simp_all


lemma outer_loop_all_back:
  assumes "\<And>e1 e2. e1 \<in> set es \<Longrightarrow> e2 \<in> set (adj_get adj (fst e1)) \<Longrightarrow> fst e2 = start"
  shows "outer_loop adj start es = []"
  using assms
proof (induction es)
  case Nil
  show ?case by simp
next
  case (Cons a es)
  have "\<forall>e \<in> set (adj_get adj (fst a)). fst e = start"
  proof
    fix e assume "e \<in> set (adj_get adj (fst a))"
    with Cons.prems [of a e] show "fst e = start" by simp
  qed
  then have m: "middle_loop adj start a (adj_get adj (fst a)) = []"
    by (rule middle_loop_all_back)
  have r: "outer_loop adj start es = []"
  proof (rule Cons.IH)
    fix e1 e2 assume "e1 \<in> set es" and "e2 \<in> set (adj_get adj (fst e1))"
    with Cons.prems [of e1 e2] show "fst e2 = start" by simp
  qed
  show ?case by (simp only: outer_loop.simps m r append_Nil)
qed

text \<open>
  Claim C1. When no market has its base asset equal to its quote asset,
  \<^verbatim>\<open>find_triangles\<close> returns the empty list: every edge that \<^verbatim>\<open>build_adjacency\<close> admits
  has exactly one end at USDT, so each edge leaving a neighbour of USDT leads back to USDT
  and is skipped as a middle node. With an empty triangle list the scan finds no best
  opportunity and the pass of the main loop hands nothing to \<^verbatim>\<open>execute\<close>.
\<close>

theorem find_triangles_empty:
  assumes "\<forall>(s, m) \<in> set markets. base m \<noteq> quote m"
  shows "find_triangles cfg markets = [] \<and>
         fst (snd (tick cfg (find_triangles cfg markets) obs clk sch)) = None"
proof -
  let ?adj = "build_adjacency markets"
  have "hub_star Map.empty" by (simp add: hub_star_def)
  then have "hub_star ?adj"
    unfolding build_adjacency_def using assms by (rule hub_star_build)
  then have inv: "\<And>k es e. ?adj k = Some es \<Longrightarrow> e \<in> set es \<Longrightarrow> (k = ''USDT'') \<noteq> (fst e = ''USDT'')"
    unfolding hub_star_def by blast
  have empty: "find_triangles cfg markets = []"
  proof (cases "?adj ''USDT''")
    case None
    then show ?thesis by (simp add: find_triangles_def)
  next
    case (Some es)
    have "outer_loop ?adj ''USDT'' es = []"
    proof (rule outer_loop_all_back)
      fix e1 e2 assume a: "e1 \<in> set es" and b: "e2 \<in> set (adj_get ?adj (fst e1))"
      from inv [OF Some a] have n: "fst e1 \<noteq> ''USDT''" by simp
      from b obtain es' where s: "?adj (fst e1) = Some es'" and m: "e2 \<in> set es'"
        by (cases "?adj (fst e1)") (simp_all add: adj_get_def)
      from inv [OF s m] n show "fst e2 = ''USDT''" by simp
    qed
    then show ?thesis using Some by (simp add: find_triangles_def py_slice_to_def)
  qed
  have "fst (snd (tick cfg [] obs clk sch)) = None"
    by (simp add: tick_def Let_def)
  with empty show ?thesis by simp
qed

theorem find_triangles_empty_witness:
  "list_all (\<lambda>(s, m). base m \<noteq> quote m) example_markets \<and>
   find_triangles example_config example_markets = [] \<and>
   fst (snd (tick example_config (find_triangles example_config example_markets)
               example_books example_clock example_scheduler)) = None"
proof -
  have h: "\<forall>(s, m) \<in> set example_markets. base m \<noteq> quote m"
    by (simp add: example_markets_def)
  have l: "list_all (\<lambda>(s, m). base m \<noteq> quote m) example_markets"
    by (simp add: example_markets_def)
  note t = find_triangles_empty [OF h, of example_config example_books example_clock example_scheduler]
  from l conjunct1 [OF t] conjunct2 [OF t] show ?thesis by (intro conjI)
qed

section \<open>Edge labels\<close>

text \<open>
  Claim C2. For an active market that touches the hub, \<^verbatim>\<open>build_adjacency\<close> inserts two
  edges. Evaluated on the single market BTC/USDT: the edge from the base asset BTC to the
  quote asset USDT carries the label \<^verbatim>\<open>'buy'\<close> and the edge from USDT to BTC the label
  \<^verbatim>\<open>'sell'\<close>, while \<^verbatim>\<open>simulate_triangle\<close> reads \<^verbatim>\<open>'sell'\<close> as selling base for quote
  against the bids and any other label as buying base with quote against the asks.
\<close>

theorem build_adjacency_btc_usdt:
  "build_adjacency btc_usdt_markets ''BTC'' = Some [(''USDT'', ''BTC/USDT'', ''buy'')] \<and>
   build_adjacency btc_usdt_markets ''USDT'' = Some [(''BTC'', ''BTC/USDT'', ''sell'')]"
  by code_simp

section \<open>The result of a simulation whose legs all fill\<close>

lemma simulate_triangle_of_legs:
  assumes "simulate_legs obs (zip (pairs tri) (directions tri)) amount = Inr (Some current)"
    and "amount \<noteq> 0"
  shows "simulate_triangle cfg obs tri amount now =
     (if ((current - amount) / amount) * 100 < MIN_PROFIT cfg then None
      else Some \<lparr>opp_triangle = tri_string tri, opp_pairs = pairs tri,
                 profit_pct = py_round (((current - amount) / amount) * 100) 3,
                 profit_usd = py_round (current - amount) 2,
                 opp_timestamp = now\<rparr>)"
  using assms by (simp add: simulate_triangle_def simulate_body_def Let_def)

section \<open>The best result of a scan\<close>

lemma scan_loop_mono:
  "scan_loop cfg obs now tris bo bp = (bo', bp') \<Longrightarrow> bp \<le> bp'"
proof (induction tris arbitrary: bo bp)
  case Nil
  then show ?case by simp
next
  case (Cons tri tris)
  show ?case
  proof (cases "simulate_triangle cfg obs tri (TRADE_AMOUNT cfg) now")
    case None
    with Cons.prems have "scan_loop cfg obs now tris bo bp = (bo', bp')" by simp
    then show ?thesis by (rule Cons.IH)
  next
    case (Some result)
    show ?thesis
    proof (cases "profit_pct result > bp")
      case True
      with Some Cons.prems
      have "scan_loop cfg obs now tris (Some result) (profit_pct result) = (bo', bp')" by simp
      then have "profit_pct result \<le> bp'" by (rule Cons.IH)
      with True show ?thesis by simp
    next
      case False
      with Some Cons.prems have "scan_loop cfg obs now tris bo bp = (bo', bp')" by simp
      then show ?thesis by (rule Cons.IH)
    qed
  qed
qed

lemma scan_loop_upper:
  "scan_loop cfg obs now tris bo bp = (bo', bp') \<Longrightarrow> t \<in> set tris \<Longrightarrow>
   simulate_triangle cfg obs t (TRADE_AMOUNT cfg) now = Some r \<Longrightarrow> profit_pct r \<le> bp'"
proof (induction tris arbitrary: bo bp)
  case Nil
  then show ?case by simp
next
  case (Cons tri tris)
  show ?case
  proof (cases "simulate_triangle cfg obs tri (TRADE_AMOUNT cfg) now")
    case None
    with Cons.prems(1) have step: "scan_loop cfg obs now tris bo bp = (bo', bp')" by simp
    from None Cons.prems(2,3) have "t \<in> set tris" by auto
    from Cons.IH [OF step this Cons.prems(3)] show ?thesis .
  next
    case (Some result)
    show ?thesis
    proof (cases "profit_pct result > bp")
      case True
      with Some Cons.prems(1)
      have step: "scan_loop cfg obs now tris (Some result) (profit_pct result) = (bo', bp')" by simp
      show ?thesis
      proof (cases "t = tri")
        case True
        with Some Cons.prems(3) have "r = result" by simp
        with scan_loop_mono [OF step] show ?thesis by simp
      next
        case False
        with Cons.prems(2) have "t \<in> set tris" by simp
        from Cons.IH [OF step this Cons.prems(3)] show ?thesis .
      qed
    next
      case False
      with Some Cons.prems(1) have step: "scan_loop cfg obs now tris bo bp = (bo', bp')" by simp
      show ?thesis
      proof (cases "t = tri")
        case True
        with Some Cons.prems(3) have "r = result" by simp
        with False scan_loop_mono [OF step] show ?thesis by simp
      next
        case neq: False
        with Cons.prems(2) have "t \<in> set tris" by simp
        from Cons.IH [OF step this Cons.prems(3)] show ?thesis .
      qed
    qed
  qed
qed

lemma scan_loop_source:
  "scan_loop cfg obs now tris bo bp = (bo', bp') \<Longrightarrow>
   (bo' = bo \<and> bp' = bp) \<or>
   (\<exists>t \<in> set tris. \<exists>b. simulate_triangle cfg obs t (TRADE_AMOUNT cfg) now = Some b \<and>
       bo' = Some b \<and> bp' = profit_pct b)"
proof (induction tris arbitrary: bo bp)
  case Nil
  then show ?case by simp
next
  case (Cons tri tris)
  show ?case
  proof (cases "simulate_triangle cfg obs tri (TRADE_AMOUNT cfg) now")
    case None
    with Cons.prems have "scan_loop cfg obs now tris bo bp = (bo', bp')" by simp
    from Cons.IH [OF this] show ?thesis by auto
  next
    case (Some result)
    show ?thesis
    proof (cases "profit_pct result > bp")
      case True
      with Some Cons.prems
      have "scan_loop cfg obs now tris (Some result) (profit_pct result) = (bo', bp')" by simp
      from Cons.IH [OF this] Some show ?thesis by auto
    next
      case False
      with Some Cons.prems have "scan_loop cfg obs now tris bo bp = (bo', bp')" by simp
      from Cons.IH [OF this] show ?thesis by auto
    qed
  qed
qed

lemma scan_loop_best:
  assumes "scan_loop cfg obs now tris None 0 = (Some best, bp)"
  shows "bp = profit_pct best"
    and "\<exists>t \<in> set tris. simulate_triangle cfg obs t (TRADE_AMOUNT cfg) now = Some best"
    and "\<And>t r. t \<in> set tris \<Longrightarrow> simulate_triangle cfg obs t (TRADE_AMOUNT cfg) now = Some r \<Longrightarrow>
           profit_pct r \<le> profit_pct best"
proof -
  from scan_loop_source [OF assms]
  obtain t where t: "t \<in> set tris"
    and s: "simulate_triangle cfg obs t (TRADE_AMOUNT cfg) now = Some best"
    and b: "bp = profit_pct best" by auto
  show "bp = profit_pct best" by (rule b)
  from t s show "\<exists>t \<in> set tris. simulate_triangle cfg obs t (TRADE_AMOUNT cfg) now = Some best" by blast
  fix t' r assume "t' \<in> set tris" and "simulate_triangle cfg obs t' (TRADE_AMOUNT cfg) now = Some r"
  from scan_loop_upper [OF assms this] b show "profit_pct r \<le> profit_pct best" by simp
qed

lemma scan_loop_first_best:
  "scan_loop cfg obs now tris bo bp = (bo', bp') \<Longrightarrow>
   (bo' = bo \<and> bp' = bp \<and>
      (\<forall>u r. u \<in> set tris \<longrightarrow> simulate_triangle cfg obs u (TRADE_AMOUNT cfg) now = Some r \<longrightarrow>
         profit_pct r \<le> bp)) \<or>
   (\<exists>pre t post b. tris = pre @ t # post \<and>
      simulate_triangle cfg obs t (TRADE_AMOUNT cfg) now = Some b \<and>
      bo' = Some b \<and> bp' = profit_pct b \<and> bp < profit_pct b \<and>
      (\<forall>u r. u \<in> set pre \<longrightarrow> simulate_triangle cfg obs u (TRADE_AMOUNT cfg) now = Some r \<longrightarrow>
         profit_pct r < profit_pct b) \<and>
      (\<forall>u r. u \<in> set post \<longrightarrow> simulate_triangle cfg obs u (TRADE_AMOUNT cfg) now = Some r \<longrightarrow>
         profit_pct r \<le> profit_pct b))"
proof (induction tris arbitrary: bo bp)
  case Nil
  then show ?case by simp
next
  case (Cons tri tris)
  let ?sim = "\<lambda>u. simulate_triangle cfg obs u (TRADE_AMOUNT cfg) now"
  show ?case
  proof (cases "?sim tri")
    case None
    with Cons.prems have step: "scan_loop cfg obs now tris bo bp = (bo', bp')" by simp
    from Cons.IH [OF step] show ?thesis
    proof
      assume "bo' = bo \<and> bp' = bp \<and>
        (\<forall>u r. u \<in> set tris \<longrightarrow> ?sim u = Some r \<longrightarrow> profit_pct r \<le> bp)"
      with None have "bo' = bo \<and> bp' = bp \<and>
        (\<forall>u r. u \<in> set (tri # tris) \<longrightarrow> ?sim u = Some r \<longrightarrow> profit_pct r \<le> bp)"
        by auto
      then show ?thesis by (rule disjI1)
    next
      assume "\<exists>pre t post b. tris = pre @ t # post \<and> ?sim t = Some b \<and>
        bo' = Some b \<and> bp' = profit_pct b \<and> bp < profit_pct b \<and>
        (\<forall>u r. u \<in> set pre \<longrightarrow> ?sim u = Some r \<longrightarrow> profit_pct r < profit_pct b) \<and>
        (\<forall>u r. u \<in> set post \<longrightarrow> ?sim u = Some r \<longrightarrow> profit_pct r \<le> profit_pct b)"
      then obtain pre t post b where d: "tris = pre @ t # post" "?sim t = Some b"
        "bo' = Some b" "bp' = profit_pct b" "bp < profit_pct b"
        and before: "\<forall>u r. u \<in> set pre \<longrightarrow> ?sim u = Some r \<longrightarrow> profit_pct r < profit_pct b"
        and after: "\<forall>u r. u \<in> set post \<longrightarrow> ?sim u = Some r \<longrightarrow> profit_pct r \<le> profit_pct b"
        by blast
      from before None
      have before': "\<forall>u r. u \<in> set (tri # pre) \<longrightarrow> ?sim u = Some r \<longrightarrow> profit_pct r < profit_pct b"
        by auto
      from d(1) have "tri # tris = (tri # pre) @ t # post" by simp
      with d(2-5) before' after show ?thesis by blast
    qed
  next
    case (Some result)
    show ?thesis
    proof (cases "profit_pct result > bp")
      case True
      with Some Cons.prems
      have step: "scan_loop cfg obs now tris (Some result) (profit_pct result) = (bo', bp')" by simp
      from Cons.IH [OF step] show ?thesis
      proof
        assume k: "bo' = Some result \<and> bp' = profit_pct result \<and>
          (\<forall>u r. u \<in> set tris \<longrightarrow> ?sim u = Some r \<longrightarrow> profit_pct r \<le> profit_pct result)"
        have "tri # tris = [] @ tri # tris" by simp
        moreover have "\<forall>u r. u \<in> set [] \<longrightarrow> ?sim u = Some r \<longrightarrow> profit_pct r < profit_pct result"
          by simp
        ultimately show ?thesis using k Some True by blast
      next
        assume "\<exists>pre t post b. tris = pre @ t # post \<and> ?sim t = Some b \<and>
          bo' = Some b \<and> bp' = profit_pct b \<and> profit_pct result < profit_pct b \<and>
          (\<forall>u r. u \<in> set pre \<longrightarrow> ?sim u = Some r \<longrightarrow> profit_pct r < profit_pct b) \<and>
          (\<forall>u r. u \<in> set post \<longrightarrow> ?sim u = Some r \<longrightarrow> profit_pct r \<le> profit_pct b)"
        then obtain pre t post b where d: "tris = pre @ t # post" "?sim t = Some b"
          "bo' = Some b" "bp' = profit_pct b" and lt: "profit_pct result < profit_pct b"
          and before: "\<forall>u r. u \<in> set pre \<longrightarrow> ?sim u = Some r \<longrightarrow> profit_pct r < profit_pct b"
          and after: "\<forall>u r. u \<in> set post \<longrightarrow> ?sim u = Some r \<longrightarrow> profit_pct r \<le> profit_pct b"
          by blast
        from before Some lt
        have before': "\<forall>u r. u \<in> set (tri # pre) \<longrightarrow> ?sim u = Some r \<longrightarrow> profit_pct r < profit_pct b"
          by auto
        from True lt have bp: "bp < profit_pct b" by simp
        from d(1) have "tri # tris = (tri # pre) @ t # post" by simp
        with d(2-4) bp before' after show ?thesis by blast
      qed
    next
      case False
      with Some Cons.prems have step: "scan_loop cfg obs now tris bo bp = (bo', bp')" by simp
      from Cons.IH [OF step] show ?thesis
      proof
        assume "bo' = bo \<and> bp' = bp \<and>
          (\<forall>u r. u \<in> set tris \<longrightarrow> ?sim u = Some r \<longrightarrow> profit_pct r \<le> bp)"
        with Some False have "bo' = bo \<and> bp' = bp \<and>
          (\<forall>u r. u \<in> set (tri # tris) \<longrightarrow> ?sim u = Some r \<longrightarrow> profit_pct r \<le> bp)"
          by auto
        then show ?thesis by (rule disjI1)
      next
        assume "\<exists>pre t post b. tris = pre @ t # post \<and> ?sim t = Some b \<and>
          bo' = Some b \<and> bp' = profit_pct b \<and> bp < profit_pct b \<and>
          (\<forall>u r. u \<in> set pre \<longrightarrow> ?sim u = Some r \<longrightarrow> profit_pct r < profit_pct b) \<and>
          (\<forall>u r. u \<in> set post \<longrightarrow> ?sim u = Some r \<longrightarrow> profit_pct r \<le> profit_pct b)"
        then obtain pre t post b where d: "tris = pre @ t # post" "?sim t = Some b"
          "bo' = Some b" "bp' = profit_pct b" "bp < profit_pct b"
          and before: "\<forall>u r. u \<in> set pre \<longrightarrow> ?sim u = Some r \<longrightarrow> profit_pct r < profit_pct b"
          and after: "\<forall>u r. u \<in> set post \<longrightarrow> ?sim u = Some r \<longrightarrow> profit_pct r \<le> profit_pct b"
          by blast
        from before Some False d(5)
        have before': "\<forall>u r. u \<in> set (tri # pre) \<longrightarrow> ?sim u = Some r \<longrightarrow> profit_pct r < profit_pct b"
          by auto
        from d(1) have "tri # tris = (tri # pre) @ t # post" by simp
        with d(2-5) before' after show ?thesis by blast
      qed
    qed
  qed
qed

section \<open>Two triangles whose rounded percentages coincide\<close>

lemma rounding_scan:
  "scan_loop example_config rounding_books (now_hms example_clock)
     [example_triangle, second_triangle] None 0 =
   (Some \<lparr>opp_triangle = tri_string example_triangle, opp_pairs = pairs example_triangle,
           profit_pct = 4685 / 1000, profit_usd = 14 / 100, opp_timestamp = ''12:00:00''\<rparr>,
    4685 / 1000)"
  by code_simp

lemma rounding_second:
  "simulate_triangle example_config rounding_books second_triangle (TRADE_AMOUNT example_config)
     (now_hms example_clock) =
     Some \<lparr>opp_triangle = tri_string second_triangle, opp_pairs = pairs second_triangle,
           profit_pct = 4685 / 1000, profit_usd = 14 / 100, opp_timestamp = ''12:00:00''\<rparr>"
  by code_simp

lemma rounding_second_full:
  "full_profit_pct rounding_books second_triangle (TRADE_AMOUNT example_config) =
     Some (46854145952999 / 10000000000000)"
  by code_simp

section \<open>Threshold and ranking\<close>

lemma full_profit_pct_legs:
  "full_profit_pct obs tri amount = Some p \<longleftrightarrow>
     (\<exists>current. simulate_legs obs (zip (pairs tri) (directions tri)) amount = Inr (Some current) \<and>
        amount \<noteq> 0 \<and> p = ((current - amount) / amount) * 100)"
  by (auto simp: full_profit_pct_def split: sum.splits option.splits)

lemma simulate_triangle_full:
  assumes "full_profit_pct obs tri amount = Some p"
  shows "\<exists>u. simulate_triangle cfg obs tri amount now =
     (if p < MIN_PROFIT cfg then None
      else Some \<lparr>opp_triangle = tri_string tri, opp_pairs = pairs tri,
                 profit_pct = py_round p 3, profit_usd = u, opp_timestamp = now\<rparr>)"
proof -
  from assms obtain current
    where l: "simulate_legs obs (zip (pairs tri) (directions tri)) amount = Inr (Some current)"
      and nz: "amount \<noteq> 0" and p: "p = ((current - amount) / amount) * 100"
    unfolding full_profit_pct_legs by blast
  show ?thesis unfolding simulate_triangle_of_legs [OF l nz] p by blast
qed

lemma simulate_triangle_no_full:
  assumes "full_profit_pct obs tri amount = None"
  shows "simulate_triangle cfg obs tri amount now = None"
proof (cases "simulate_legs obs (zip (pairs tri) (directions tri)) amount")
  case (Inl e)
  then show ?thesis by (simp add: simulate_triangle_def simulate_body_def)
next
  case (Inr r)
  show ?thesis
  proof (cases r)
    case None
    with Inr show ?thesis by (simp add: simulate_triangle_def simulate_body_def)
  next
    case (Some current)
    with Inr assms have "amount = 0" by (simp add: full_profit_pct_def split: if_splits)
    with Inr Some show ?thesis by (simp add: simulate_triangle_def simulate_body_def)
  qed
qed

text \<open>
  Claim C3, as amended. The threshold test inside \<^verbatim>\<open>simulate_triangle\<close> compares the
  full-precision percentage: a result is returned exactly when the legs fill and the
  unrounded percentage is at least \<^verbatim>\<open>MIN_PROFIT\<close>, and the \<^verbatim>\<open>profit_pct\<close> it carries is
  that percentage rounded to three decimals. The ranking of the main loop compares these
  rounded \<^verbatim>\<open>profit_pct\<close> fields: the best opportunity of a scan is the result of the
  first triangle, in list order, whose rounded percentage is the largest of the scan, so
  that of two results with the same rounded value the earlier one is kept; its rounded
  percentage is positive, and the scan has no best opportunity exactly when no result has
  a positive rounded percentage.
\<close>

theorem threshold_exact_ranking_rounded:
  "(simulate_triangle cfg obs tri amount now \<noteq> None \<longleftrightarrow>
      (\<exists>p. full_profit_pct obs tri amount = Some p \<and> MIN_PROFIT cfg \<le> p)) \<and>
   (\<forall>r p. simulate_triangle cfg obs tri amount now = Some r \<longrightarrow>
      full_profit_pct obs tri amount = Some p \<longrightarrow> profit_pct r = py_round p 3) \<and>
   (\<forall>best bp. scan_loop cfg obs now tris None 0 = (Some best, bp) \<longrightarrow>
      bp = profit_pct best \<and>
      (\<exists>t \<in> set tris. simulate_triangle cfg obs t (TRADE_AMOUNT cfg) now = Some best) \<and>
      (\<forall>t \<in> set tris. \<forall>r. simulate_triangle cfg obs t (TRADE_AMOUNT cfg) now = Some r \<longrightarrow>
         profit_pct r \<le> profit_pct best)) \<and>
   (\<forall>best bp. scan_loop cfg obs now tris None 0 = (Some best, bp) \<longrightarrow>
      0 < profit_pct best \<and>
      (\<exists>pre t post. tris = pre @ t # post \<and>
         simulate_triangle cfg obs t (TRADE_AMOUNT cfg) now = Some best \<and>
         (\<forall>u \<in> set pre. \<forall>r. simulate_triangle cfg obs u (TRADE_AMOUNT cfg) now = Some r \<longrightarrow>
            profit_pct r < profit_pct best) \<and>
         (\<forall>u \<in> set post. \<forall>r. simulate_triangle cfg obs u (TRADE_AMOUNT cfg) now = Some r \<longrightarrow>
            profit_pct r \<le> profit_pct best))) \<and>
   (fst (scan_loop cfg obs now tris None 0) = None \<longleftrightarrow>
      (\<forall>t \<in> set tris. \<forall>r. simulate_triangle cfg obs t (TRADE_AMOUNT cfg) now = Some r \<longrightarrow>
         profit_pct r \<le> 0))"
proof -
  let ?sim = "\<lambda>u. simulate_triangle cfg obs u (TRADE_AMOUNT cfg) now"
  have c1: "simulate_triangle cfg obs tri amount now \<noteq> None \<longleftrightarrow>
      (\<exists>p. full_profit_pct obs tri amount = Some p \<and> MIN_PROFIT cfg \<le> p)"
  proof (cases "full_profit_pct obs tri amount")
    case None
    then show ?thesis by (simp add: simulate_triangle_no_full)
  next
    case (Some p)
    from simulate_triangle_full [OF Some, of cfg now] Some show ?thesis
      by (auto simp: not_less split: if_splits)
  qed
  have c2: "\<forall>r p. simulate_triangle cfg obs tri amount now = Some r \<longrightarrow>
      full_profit_pct obs tri amount = Some p \<longrightarrow> profit_pct r = py_round p 3"
  proof (intro allI impI)
    fix r p
    assume r: "simulate_triangle cfg obs tri amount now = Some r"
      and p: "full_profit_pct obs tri amount = Some p"
    from simulate_triangle_full [OF p, of cfg now] r show "profit_pct r = py_round p 3"
      by (auto split: if_splits)
  qed
  have c3: "\<forall>best bp. scan_loop cfg obs now tris None 0 = (Some best, bp) \<longrightarrow>
      bp = profit_pct best \<and> (\<exists>t \<in> set tris. ?sim t = Some best) \<and>
      (\<forall>t \<in> set tris. \<forall>r. ?sim t = Some r \<longrightarrow> profit_pct r \<le> profit_pct best)"
  proof (intro allI impI conjI ballI)
    fix best bp assume s: "scan_loop cfg obs now tris None 0 = (Some best, bp)"
    show "bp = profit_pct best" by (rule scan_loop_best(1) [OF s])
    show "\<exists>t \<in> set tris. ?sim t = Some best" by (rule scan_loop_best(2) [OF s])
    fix t r assume t: "t \<in> set tris" and r: "?sim t = Some r"
    show "profit_pct r \<le> profit_pct best" by (rule scan_loop_best(3) [OF s t r])
  qed
  have c4: "\<forall>best bp. scan_loop cfg obs now tris None 0 = (Some best, bp) \<longrightarrow>
      0 < profit_pct best \<and>
      (\<exists>pre t post. tris = pre @ t # post \<and> ?sim t = Some best \<and>
         (\<forall>u \<in> set pre. \<forall>r. ?sim u = Some r \<longrightarrow> profit_pct r < profit_pct best) \<and>
         (\<forall>u \<in> set post. \<forall>r. ?sim u = Some r \<longrightarrow> profit_pct r \<le> profit_pct best))"
  proof (intro allI impI)
    fix best bp assume s: "scan_loop cfg obs now tris None 0 = (Some best, bp)"
    from scan_loop_first_best [OF s]
    obtain pre t post b where d: "tris = pre @ t # post" "?sim t = Some b" "Some best = Some b"
      "0 < profit_pct b"
      and before: "\<forall>u r. u \<in> set pre \<longrightarrow> ?sim u = Some r \<longrightarrow> profit_pct r < profit_pct b"
      and after: "\<forall>u r. u \<in> set post \<longrightarrow> ?sim u = Some r \<longrightarrow> profit_pct r \<le> profit_pct b"
      by blast
    from d(3) have "b = best" by simp
    with d before after
    show "0 < profit_pct best \<and>
      (\<exists>pre t post. tris = pre @ t # post \<and> ?sim t = Some best \<and>
         (\<forall>u \<in> set pre. \<forall>r. ?sim u = Some r \<longrightarrow> profit_pct r < profit_pct best) \<and>
         (\<forall>u \<in> set post. \<forall>r. ?sim u = Some r \<longrightarrow> profit_pct r \<le> profit_pct best))"
      by blast
  qed
  have c5: "fst (scan_loop cfg obs now tris None 0) = None \<longleftrightarrow>
      (\<forall>t \<in> set tris. \<forall>r. ?sim t = Some r \<longrightarrow> profit_pct r \<le> 0)"
  proof -
    obtain bo bp where s: "scan_loop cfg obs now tris None 0 = (bo, bp)"
      by (cases "scan_loop cfg obs now tris None 0")
    from scan_loop_first_best [OF s] show ?thesis
    proof
      assume "bo = None \<and> bp = 0 \<and>
        (\<forall>u r. u \<in> set tris \<longrightarrow> ?sim u = Some r \<longrightarrow> profit_pct r \<le> 0)"
      with s show ?thesis by simp
    next
      assume "\<exists>pre t post b. tris = pre @ t # post \<and> ?sim t = Some b \<and>
        bo = Some b \<and> bp = profit_pct b \<and> 0 < profit_pct b \<and>
        (\<forall>u r. u \<in> set pre \<longrightarrow> ?sim u = Some r \<longrightarrow> profit_pct r < profit_pct b) \<and>
        (\<forall>u r. u \<in> set post \<longrightarrow> ?sim u = Some r \<longrightarrow> profit_pct r \<le> profit_pct b)"
      then obtain pre t post b where d: "tris = pre @ t # post" "?sim t = Some b"
        "bo = Some b" "0 < profit_pct b" by blast
      from d(1) have "t \<in> set tris" by simp
      with d(2,4) have "\<not> (\<forall>t \<in> set tris. \<forall>r. ?sim t = Some r \<longrightarrow> profit_pct r \<le> 0)"
        by (auto simp: not_le)
      with s d(3) show ?thesis by simp
    qed
  qed
  from c1 c2 c3 c4 c5 show ?thesis by (intro conjI)
qed

theorem threshold_exact_ranking_rounded_witness:
  "simulate_triangle example_config rounding_books second_triangle (TRADE_AMOUNT example_config)
     (now_hms example_clock) \<noteq> None \<and>
   full_profit_pct rounding_books second_triangle (TRADE_AMOUNT example_config) =
     Some (46854145952999 / 10000000000000) \<and>
   py_round (46854145952999 / 10000000000000) 3 = 4685 / 1000 \<and>
   scan_loop example_config rounding_books (now_hms example_clock)
     [example_triangle, second_triangle] None 0 =
     (Some \<lparr>opp_triangle = tri_string example_triangle, opp_pairs = pairs example_triangle,
           profit_pct = 4685 / 1000, profit_usd = 14 / 100, opp_timestamp = ''12:00:00''\<rparr>,
      4685 / 1000) \<and>
   second_triangle \<in> set [example_triangle, second_triangle] \<and>
   profit_pct \<lparr>opp_triangle = tri_string second_triangle, opp_pairs = pairs second_triangle,
           profit_pct = 4685 / 1000, profit_usd = 14 / 100, opp_timestamp = ''12:00:00''\<rparr>
     \<le> profit_pct \<lparr>opp_triangle = tri_string example_triangle, opp_pairs = pairs example_triangle,
           profit_pct = 4685 / 1000, profit_usd = 14 / 100, opp_timestamp = ''12:00:00''\<rparr> \<and>
   0 < profit_pct \<lparr>opp_triangle = tri_string example_triangle, opp_pairs = pairs example_triangle,
           profit_pct = 4685 / 1000, profit_usd = 14 / 100, opp_timestamp = ''12:00:00''\<rparr> \<and>
   fst (scan_loop example_config rounding_books (now_hms example_clock)
     [example_triangle, second_triangle] None 0) \<noteq> None"
proof -
  let ?first = "\<lparr>opp_triangle = tri_string example_triangle, opp_pairs = pairs example_triangle,
           profit_pct = 4685 / 1000, profit_usd = 14 / 100, opp_timestamp = ''12:00:00''\<rparr>"
  let ?second = "\<lparr>opp_triangle = tri_string second_triangle, opp_pairs = pairs second_triangle,
           profit_pct = 4685 / 1000, profit_usd = 14 / 100, opp_timestamp = ''12:00:00''\<rparr>"
  note w = threshold_exact_ranking_rounded [of example_config rounding_books second_triangle
      "TRADE_AMOUNT example_config" "now_hms example_clock" "[example_triangle, second_triangle]"]
  have m: "second_triangle \<in> set [example_triangle, second_triangle]" by simp
  have a: "simulate_triangle example_config rounding_books second_triangle (TRADE_AMOUNT example_config)
     (now_hms example_clock) \<noteq> None"
    by (simp add: rounding_second)
  from w have w2: "\<forall>r p. simulate_triangle example_config rounding_books second_triangle
        (TRADE_AMOUNT example_config) (now_hms example_clock) = Some r \<longrightarrow>
      full_profit_pct rounding_books second_triangle (TRADE_AMOUNT example_config) = Some p \<longrightarrow>
      profit_pct r = py_round p 3"
    by (rule conjunct2 [THEN conjunct1])
  from w2 rounding_second rounding_second_full
  have "profit_pct ?second = py_round (46854145952999 / 10000000000000) 3"
    by blast
  then have b: "py_round (46854145952999 / 10000000000000) 3 = 4685 / 1000" by simp
  from w have w3: "\<forall>best bp. scan_loop example_config rounding_books (now_hms example_clock)
        [example_triangle, second_triangle] None 0 = (Some best, bp) \<longrightarrow>
      bp = profit_pct best \<and>
      (\<exists>t \<in> set [example_triangle, second_triangle].
         simulate_triangle example_config rounding_books t (TRADE_AMOUNT example_config)
           (now_hms example_clock) = Some best) \<and>
      (\<forall>t \<in> set [example_triangle, second_triangle]. \<forall>r.
         simulate_triangle example_config rounding_books t (TRADE_AMOUNT example_config)
           (now_hms example_clock) = Some r \<longrightarrow> profit_pct r \<le> profit_pct best)"
    by (rule conjunct2 [THEN conjunct2, THEN conjunct1])
  from w3 rounding_scan rounding_second m
  have c: "profit_pct ?second \<le> profit_pct ?first"
    by blast
  from w have w4: "\<forall>best bp. scan_loop example_config rounding_books (now_hms example_clock)
        [example_triangle, second_triangle] None 0 = (Some best, bp) \<longrightarrow>
      0 < profit_pct best \<and>
      (\<exists>pre t post. [example_triangle, second_triangle] = pre @ t # post \<and>
         simulate_triangle example_config rounding_books t (TRADE_AMOUNT example_config)
           (now_hms example_clock) = Some best \<and>
         (\<forall>u \<in> set pre. \<forall>r. simulate_triangle example_config rounding_books u
            (TRADE_AMOUNT example_config) (now_hms example_clock) = Some r \<longrightarrow>
            profit_pct r < profit_pct best) \<and>
         (\<forall>u \<in> set post. \<forall>r. simulate_triangle example_config rounding_books u
            (TRADE_AMOUNT example_config) (now_hms example_clock) = Some r \<longrightarrow>
            profit_pct r \<le> profit_pct best))"
    by (rule conjunct2 [THEN conjunct2, THEN conjunct2, THEN conjunct1])
  from w4 rounding_scan have d: "0 < profit_pct ?first" by blast
  have e: "fst (scan_loop example_config rounding_books (now_hms example_clock)
     [example_triangle, second_triangle] None 0) \<noteq> None"
    unfolding rounding_scan by simp
  from a rounding_second_full b rounding_scan m c d e show ?thesis by (intro conjI)
qed

theorem ranking_counterexample:
  "full_profit_pct rounding_books example_triangle 3 = Some (4685314895 / 1000000000) \<and>
   full_profit_pct rounding_books second_triangle 3 = Some (46854145952999 / 10000000000000) \<and>
   (4685314895 / 1000000000 :: rat) < 46854145952999 / 10000000000000 \<and>
   simulate_triangle example_config rounding_books example_triangle 3 ''12:00:00'' =
     Some \<lparr>opp_triangle = tri_string example_triangle, opp_pairs = pairs example_triangle,
           profit_pct = 4685 / 1000, profit_usd = 14 / 100, opp_timestamp = ''12:00:00''\<rparr> \<and>
   simulate_triangle example_config rounding_books second_triangle 3 ''12:00:00'' =
     Some \<lparr>opp_triangle = tri_string second_triangle, opp_pairs = pairs second_triangle,
           profit_pct = 4685 / 1000, profit_usd = 14 / 100, opp_timestamp = ''12:00:00''\<rparr> \<and>
   fst (snd (tick example_config [example_triangle, second_triangle] rounding_books
               example_clock example_scheduler)) =
     Some \<lparr>opp_triangle = tri_string example_triangle, opp_pairs = pairs example_triangle,
           profit_pct = 4685 / 1000, profit_usd = 14 / 100, opp_timestamp = ''12:00:00''\<rparr>"
proof -
  have a: "full_profit_pct rounding_books example_triangle 3 = Some (4685314895 / 1000000000)"
    by code_simp
  have b: "full_profit_pct rounding_books second_triangle 3 = Some (46854145952999 / 10000000000000)"
    by code_simp
  have c: "(4685314895 / 1000000000 :: rat) < 46854145952999 / 10000000000000" by simp
  have d: "simulate_triangle example_config rounding_books example_triangle 3 ''12:00:00'' =
     Some \<lparr>opp_triangle = tri_string example_triangle, opp_pairs = pairs example_triangle,
           profit_pct = 4685 / 1000, profit_usd = 14 / 100, opp_timestamp = ''12:00:00''\<rparr>"
    by code_simp
  have e: "simulate_triangle example_config rounding_books second_triangle 3 ''12:00:00'' =
     Some \<lparr>opp_triangle = tri_string second_triangle, opp_pairs = pairs second_triangle,
           profit_pct = 4685 / 1000, profit_usd = 14 / 100, opp_timestamp = ''12:00:00''\<rparr>"
    by code_simp
  have f: "fst (snd (tick example_config [example_triangle, second_triangle] rounding_books
               example_clock example_scheduler)) =
     Some \<lparr>opp_triangle = tri_string example_triangle, opp_pairs = pairs example_triangle,
           profit_pct = 4685 / 1000, profit_usd = 14 / 100, opp_timestamp = ''12:00:00''\<rparr>"
    unfolding tick_def rounding_scan
    by (simp add: Let_def example_config_def example_clock_def example_scheduler_def split: prod.splits)
  from a b c d e f show ?thesis by (intro conjI)
qed

section \<open>The worked example\<close>

lemma example_legs:
  "simulate_legs example_books (zip (pairs example_triangle) (directions example_triangle)) 3 =
     Inr (Some (314055944685 / 100000000000))"
  by code_simp

text \<open>
  Claim C4, as amended. For the triangle buy against asks \<open>[(20000, 1)]\<close>, buy against
  asks \<open>[(0.05, 10)]\<close>, sell against bids \<open>[(1050, 10)]\<close> and the start amount 3, each leg's
  output after the fee feeds the next leg, and the outputs are 0.00014985, 0.0029940 and
  3.1406 to the printed precision (within half a unit of the last digit); the profit is
  0.1406 and the profit percentage 4.69 to the same precision. The simulation returns the
  opportunity, its \<^verbatim>\<open>profit_pct\<close> and \<^verbatim>\<open>profit_usd\<close> within the rounding steps 0.0005 and
  0.005 of these values, whenever the minimum-profit threshold is at most 4.685; from a
  threshold of 4.686 on, and so at 4.69, it returns \<^verbatim>\<open>None\<close>.
\<close>

theorem worked_example:
  "\<exists>c1 c2 c3 p.
     simulate_leg example_books ''BTC/USDT'' ''buy'' 3 = Inr (Some c1) \<and>
     \<bar>c1 - 14985 / 100000000\<bar> < 5 / 1000000000 \<and>
     simulate_leg example_books ''ETH/BTC'' ''buy'' c1 = Inr (Some c2) \<and>
     \<bar>c2 - 29940 / 10000000\<bar> < 5 / 100000000 \<and>
     simulate_leg example_books ''ETH/USDT'' ''sell'' c2 = Inr (Some c3) \<and>
     \<bar>c3 - 31406 / 10000\<bar> < 5 / 100000 \<and>
     \<bar>(c3 - 3) - 1406 / 10000\<bar> < 5 / 100000 \<and>
     full_profit_pct example_books example_triangle 3 = Some p \<and>
     p = ((c3 - 3) / 3) * 100 \<and>
     \<bar>p - 469 / 100\<bar> < 5 / 1000 \<and>
     (MIN_PROFIT cfg \<le> 4685 / 1000 \<longrightarrow>
        (\<exists>opp. simulate_triangle cfg example_books example_triangle 3 now = Some opp \<and>
           opp_triangle opp = tri_string example_triangle \<and>
           opp_pairs opp = pairs example_triangle \<and>
           \<bar>profit_pct opp - p\<bar> \<le> 5 / 10000 \<and>
           \<bar>profit_usd opp - (c3 - 3)\<bar> \<le> 5 / 1000)) \<and>
     (4686 / 1000 \<le> MIN_PROFIT cfg \<longrightarrow>
        simulate_triangle cfg example_books example_triangle 3 now = None)"
proof -
  let ?c1 = "14985 / 100000000 :: rat"
  let ?c2 = "2994003 / 1000000000 :: rat"
  let ?c3 = "314055944685 / 100000000000 :: rat"
  let ?p = "((?c3 - 3) / 3) * 100"
  have l1: "simulate_leg example_books ''BTC/USDT'' ''buy'' 3 = Inr (Some ?c1)"
    by code_simp
  have l2: "simulate_leg example_books ''ETH/BTC'' ''buy'' ?c1 = Inr (Some ?c2)"
    by code_simp
  have l3: "simulate_leg example_books ''ETH/USDT'' ''sell'' ?c2 = Inr (Some ?c3)"
    by code_simp
  have t1: "\<bar>?c1 - 14985 / 100000000\<bar> < 5 / 1000000000" by simp
  have t2: "\<bar>?c2 - 29940 / 10000000\<bar> < 5 / 100000000" by simp
  have t3: "\<bar>?c3 - 31406 / 10000\<bar> < 5 / 100000" by simp
  have t4: "\<bar>(?c3 - 3) - 1406 / 10000\<bar> < 5 / 100000" by simp
  have f: "full_profit_pct example_books example_triangle 3 = Some ?p"
    by code_simp
  have t5: "\<bar>?p - 469 / 100\<bar> < 5 / 1000" by simp
  have pv: "?p = 4685314895 / 1000000000" by simp
  have r3: "py_round ?p 3 = 4685 / 1000" by code_simp
  have r2: "py_round (?c3 - 3) 2 = 14 / 100" by code_simp
  note s = simulate_triangle_of_legs [OF example_legs, of cfg now]
  have q: "MIN_PROFIT cfg \<le> 4685 / 1000 \<longrightarrow>
        (\<exists>opp. simulate_triangle cfg example_books example_triangle 3 now = Some opp \<and>
           opp_triangle opp = tri_string example_triangle \<and>
           opp_pairs opp = pairs example_triangle \<and>
           \<bar>profit_pct opp - ?p\<bar> \<le> 5 / 10000 \<and>
           \<bar>profit_usd opp - (?c3 - 3)\<bar> \<le> 5 / 1000)"
  proof
    assume m: "MIN_PROFIT cfg \<le> 4685 / 1000"
    then have "\<not> ?p < MIN_PROFIT cfg" unfolding pv by simp
    with s have e: "simulate_triangle cfg example_books example_triangle 3 now =
       Some \<lparr>opp_triangle = tri_string example_triangle, opp_pairs = pairs example_triangle,
             profit_pct = py_round ?p 3, profit_usd = py_round (?c3 - 3) 2,
             opp_timestamp = now\<rparr>"
      by simp
    have a: "\<bar>py_round ?p 3 - ?p\<bar> \<le> 5 / 10000" unfolding r3 by simp
    have b: "\<bar>py_round (?c3 - 3) 2 - (?c3 - 3)\<bar> \<le> 5 / 1000" unfolding r2 by simp
    show "\<exists>opp. simulate_triangle cfg example_books example_triangle 3 now = Some opp \<and>
           opp_triangle opp = tri_string example_triangle \<and>
           opp_pairs opp = pairs example_triangle \<and>
           \<bar>profit_pct opp - ?p\<bar> \<le> 5 / 10000 \<and>
           \<bar>profit_usd opp - (?c3 - 3)\<bar> \<le> 5 / 1000"
      unfolding e using a b by simp
  qed
  have n: "4686 / 1000 \<le> MIN_PROFIT cfg \<longrightarrow>
        simulate_triangle cfg example_books example_triangle 3 now = None"
  proof
    assume "4686 / 1000 \<le> MIN_PROFIT cfg"
    then have "?p < MIN_PROFIT cfg" unfolding pv by simp
    with s show "simulate_triangle cfg example_books example_triangle 3 now = None" by simp
  qed
  have "simulate_leg example_books ''BTC/USDT'' ''buy'' 3 = Inr (Some ?c1) \<and>
     \<bar>?c1 - 14985 / 100000000\<bar> < 5 / 1000000000 \<and>
     simulate_leg example_books ''ETH/BTC'' ''buy'' ?c1 = Inr (Some ?c2) \<and>
     \<bar>?c2 - 29940 / 10000000\<bar> < 5 / 100000000 \<and>
     simulate_leg example_books ''ETH/USDT'' ''sell'' ?c2 = Inr (Some ?c3) \<and>
     \<bar>?c3 - 31406 / 10000\<bar> < 5 / 100000 \<and>
     \<bar>(?c3 - 3) - 1406 / 10000\<bar> < 5 / 100000 \<and>
     full_profit_pct example_books example_triangle 3 = Some ?p \<and>
     ?p = ((?c3 - 3) / 3) * 100 \<and>
     \<bar>?p - 469 / 100\<bar> < 5 / 1000 \<and>
     (MIN_PROFIT cfg \<le> 4685 / 1000 \<longrightarrow>
        (\<exists>opp. simulate_triangle cfg example_books example_triangle 3 now = Some opp \<and>
           opp_triangle opp = tri_string example_triangle \<and>
           opp_pairs opp = pairs example_triangle \<and>
           \<bar>profit_pct opp - ?p\<bar> \<le> 5 / 10000 \<and>
           \<bar>profit_usd opp - (?c3 - 3)\<bar> \<le> 5 / 1000)) \<and>
     (4686 / 1000 \<le> MIN_PROFIT cfg \<longrightarrow>
        simulate_triangle cfg example_books example_triangle 3 now = None)"
    by (intro conjI l1 t1 l2 t2 l3 t3 t4 f refl t5 q n)
  then show ?thesis by (intro exI)
qed


theorem worked_example_witness:
  "MIN_PROFIT example_config \<le> 4685 / 1000 \<and>
   (\<exists>opp. simulate_triangle example_config example_books example_triangle 3 ''12:00:00'' = Some opp \<and>
      opp_triangle opp = tri_string example_triangle \<and>
      \<bar>profit_pct opp - 469 / 100\<bar> \<le> 55 / 10000 \<and>
      \<bar>profit_usd opp - 1406 / 10000\<bar> \<le> 505 / 100000)"
proof -
  have h: "MIN_PROFIT example_config \<le> 4685 / 1000"
    by (simp add: example_config_def)
  from worked_example [of example_config "''12:00:00''"] h
  obtain c3 p opp where
    "\<bar>(c3 - 3) - 1406 / 10000\<bar> < 5 / 100000" "\<bar>p - 469 / 100\<bar> < 5 / 1000"
    "simulate_triangle example_config example_books example_triangle 3 ''12:00:00'' = Some opp"
    "opp_triangle opp = tri_string example_triangle"
    "\<bar>profit_pct opp - p\<bar> \<le> 5 / 10000" "\<bar>profit_usd opp - (c3 - 3)\<bar> \<le> 5 / 1000"
    by blast
  then have "simulate_triangle example_config example_books example_triangle 3 ''12:00:00'' = Some opp \<and>
      opp_triangle opp = tri_string example_triangle \<and>
      \<bar>profit_pct opp - 469 / 100\<bar> \<le> 55 / 10000 \<and>
      \<bar>profit_usd opp - 1406 / 10000\<bar> \<le> 505 / 100000"
    by (intro conjI) linarith+
  then have "\<exists>opp. simulate_triangle example_config example_books example_triangle 3 ''12:00:00'' = Some opp \<and>
      opp_triangle opp = tri_string example_triangle \<and>
      \<bar>profit_pct opp - 469 / 100\<bar> \<le> 55 / 10000 \<and>
      \<bar>profit_usd opp - 1406 / 10000\<bar> \<le> 505 / 100000" by (rule exI)
  with h show ?thesis by (rule conjI)
qed

theorem worked_example_threshold_counterexample:
  "MIN_PROFIT (example_config\<lparr>MIN_PROFIT := 469 / 100\<rparr>) \<le> 469 / 100 \<and>
   simulate_triangle (example_config\<lparr>MIN_PROFIT := 469 / 100\<rparr>) example_books example_triangle 3 ''12:00:00'' = None"
  by code_simp

section \<open>Missing snapshots and insufficient depth\<close>










section \<open>One call of execute and one pass of the loop\<close>

lemma execute_fst:
  "fst (execute cfg ex opp t stamp) =
     ex\<lparr>trades := appendleft 100 (fst (snd (execute cfg ex opp t stamp))) (trades ex),
        stats := update_stats (stats ex) (fst (snd (execute cfg ex opp t stamp)))\<rparr>"
  by (simp add: execute_def Let_def split: prod.splits)

lemma update_stats_total:
  "total_trades (update_stats st tr) = total_trades st + 1"
  by (simp add: update_stats_def Let_def)

lemma execute_total:
  "total_trades (stats (fst (execute cfg ex opp t stamp))) = total_trades (stats ex) + 1"
  by (subst execute_fst) (simp add: update_stats_total)

lemma execute_trades:
  "trades (fst (execute cfg ex opp t stamp)) =
     appendleft 100 (fst (snd (execute cfg ex opp t stamp))) (trades ex)"
  by (subst execute_fst) simp

lemma tick_dispatch:
  assumes "scan_loop cfg obs (now_hms clk) tris None 0 = (Some opp, bp)"
    and "MIN_PROFIT cfg \<le> bp"
    and "\<not> t_check clk - last_opportunity_time s < 2"
  shows "tick cfg tris obs clk s =
     (s\<lparr>scan_count := scan_count s + 1, last_opportunity_time := t_set clk,
        executor_of := fst (execute cfg (executor_of s) opp (t_exec clk) (now_iso clk))\<rparr>,
      Some opp,
      snd (snd (execute cfg (executor_of s) opp (t_exec clk) (now_iso clk)))
        @ [Scan_notice (scan_count s + 1), Sleep (SCAN_INTERVAL cfg)])"
  using assms by (simp add: tick_def Let_def split: prod.splits)

lemma tick_idle:
  assumes "scan_loop cfg obs (now_hms clk) tris None 0 = (bo, bp)"
    and "bo = None \<or> \<not> MIN_PROFIT cfg \<le> bp \<or> t_check clk - last_opportunity_time s < 2"
  shows "fst (tick cfg tris obs clk s) = s\<lparr>scan_count := scan_count s + 1\<rparr>"
    and "fst (snd (tick cfg tris obs clk s)) = None"
  using assms by (auto simp: tick_def Let_def split: option.splits)

section \<open>The cooldown\<close>

lemma tick_cases:
  "(fst (snd (tick cfg tris obs clk s)) = None \<and>
      fst (tick cfg tris obs clk s) = s\<lparr>scan_count := scan_count s + 1\<rparr>) \<or>
   (\<exists>opp. fst (snd (tick cfg tris obs clk s)) = Some opp \<and>
      \<not> t_check clk - last_opportunity_time s < 2 \<and>
      fst (tick cfg tris obs clk s) =
        s\<lparr>scan_count := scan_count s + 1, last_opportunity_time := t_set clk,
          executor_of := fst (execute cfg (executor_of s) opp (t_exec clk) (now_iso clk))\<rparr>)"
proof -
  obtain bo bp where sc: "scan_loop cfg obs (now_hms clk) tris None 0 = (bo, bp)"
    by (cases "scan_loop cfg obs (now_hms clk) tris None 0")
  show ?thesis
  proof (cases "bo = None \<or> \<not> MIN_PROFIT cfg \<le> bp \<or> t_check clk - last_opportunity_time s < 2")
    case True
    from tick_idle [OF sc True] show ?thesis by simp
  next
    case False
    then obtain best where b: "bo = Some best" by (cases bo) simp_all
    from False have m: "MIN_PROFIT cfg \<le> bp" and c: "\<not> t_check clk - last_opportunity_time s < 2"
      by simp_all
    note d = tick_dispatch [OF sc [unfolded b] m c]
    show ?thesis unfolding d using c by simp
  qed
qed

lemma tick_last_opportunity_time:
  "fst (snd (tick cfg tris obs clk s)) = None \<Longrightarrow>
     last_opportunity_time (fst (tick cfg tris obs clk s)) = last_opportunity_time s"
  "fst (snd (tick cfg tris obs clk s)) = Some opp \<Longrightarrow>
     2 \<le> t_check clk - last_opportunity_time s \<and>
     last_opportunity_time (fst (tick cfg tris obs clk s)) = t_set clk"
  using tick_cases [of cfg tris obs clk s] by auto

lemma tick_cooling:
  assumes "t_check clk - last_opportunity_time s < 2"
  shows "fst (snd (tick cfg tris obs clk s)) = None"
  using tick_cases [of cfg tris obs clk s] assms by auto

lemma run_ticks_Cons:
  "snd (run_ticks cfg tris s ((obs, clk) # rest)) =
     (case fst (snd (tick cfg tris obs clk s)) of None \<Rightarrow> [] | Some opp \<Rightarrow> [opp])
       @ snd (run_ticks cfg tris (fst (tick cfg tris obs clk s)) rest)"
  "fst (run_ticks cfg tris s ((obs, clk) # rest)) =
     fst (run_ticks cfg tris (fst (tick cfg tris obs clk s)) rest)"
  by (simp_all split: prod.splits)

lemma run_ticks_cooling:
  assumes "\<And>obs clk. (obs, clk) \<in> set inputs \<Longrightarrow> t_check clk - last_opportunity_time s < 2"
  shows "snd (run_ticks cfg tris s inputs) = []"
  using assms
proof (induction inputs arbitrary: s)
  case Nil
  show ?case by simp
next
  case (Cons input rest)
  obtain obs clk where input: "input = (obs, clk)" by (cases input)
  have cool: "t_check clk - last_opportunity_time s < 2"
    by (rule Cons.prems [of obs clk]) (simp add: input)
  have none: "fst (snd (tick cfg tris obs clk s)) = None"
    by (rule tick_cooling [OF cool])
  have same: "last_opportunity_time (fst (tick cfg tris obs clk s)) = last_opportunity_time s"
    by (rule tick_last_opportunity_time(1) [OF none])
  have "snd (run_ticks cfg tris (fst (tick cfg tris obs clk s)) rest) = []"
  proof (rule Cons.IH)
    fix obs' clk' assume "(obs', clk') \<in> set rest"
    then have "(obs', clk') \<in> set (input # rest)" by simp
    from Cons.prems [OF this] show "t_check clk' - last_opportunity_time (fst (tick cfg tris obs clk s)) < 2"
      unfolding same .
  qed
  then show ?case unfolding input run_ticks_Cons none by simp
qed

lemma span_less_Cons:
  assumes "span_less ((obs, clk) # rest) w"
  shows "span_less rest w"
    and "\<And>obs' clk'. (obs', clk') \<in> set rest \<Longrightarrow> t_check clk' - t_set clk < w"
proof -
  have sub: "set (readings rest) \<subseteq> set (readings ((obs, clk) # rest))"
    by (auto simp: readings_def)
  with assms show "span_less rest w" unfolding span_less_def by blast
  fix obs' clk' assume "(obs', clk') \<in> set rest"
  then have "t_check clk' \<in> set (readings rest)" by (force simp: readings_def)
  with sub have a: "t_check clk' \<in> set (readings ((obs, clk) # rest))" by blast
  have b: "t_set clk \<in> set (readings ((obs, clk) # rest))" by (simp add: readings_def)
  from assms a b show "t_check clk' - t_set clk < w" unfolding span_less_def by blast
qed

text \<open>
  Claim C6. Over any finite run of passes of the main loop whose clock readings all lie
  within a window shorter than the cooldown of 2 s, at most one opportunity is handed to
  \<^verbatim>\<open>execute\<close>, whatever the passes find and whatever the state at the start. A pass
  dispatches only when the clock is at least 2 s past the last trigger time, and then the
  last trigger time becomes the clock reading taken at the dispatch; a pass that does not
  dispatch leaves it unchanged.
\<close>

theorem cooldown_debounce:
  assumes "span_less inputs 2"
  shows "length (snd (run_ticks cfg tris s inputs)) \<le> 1 \<and>
         (\<forall>opp. fst (snd (tick cfg tris obs clk s)) = Some opp \<longrightarrow>
            2 \<le> t_check clk - last_opportunity_time s \<and>
            last_opportunity_time (fst (tick cfg tris obs clk s)) = t_set clk) \<and>
         (fst (snd (tick cfg tris obs clk s)) = None \<longrightarrow>
            last_opportunity_time (fst (tick cfg tris obs clk s)) = last_opportunity_time s)"
proof -
  from assms have "length (snd (run_ticks cfg tris s inputs)) \<le> 1"
  proof (induction inputs arbitrary: s)
    case Nil
    show ?case by simp
  next
    case (Cons input rest)
    obtain obs' clk' where input: "input = (obs', clk')" by (cases input)
    note sp = span_less_Cons [OF Cons.prems [unfolded input]]
    show ?case
    proof (cases "fst (snd (tick cfg tris obs' clk' s))")
      case None
      from Cons.IH [OF sp(1)] show ?thesis unfolding input run_ticks_Cons None by simp
    next
      case (Some opp)
      from tick_last_opportunity_time(2) [OF Some]
      have set: "last_opportunity_time (fst (tick cfg tris obs' clk' s)) = t_set clk'" by simp
      have "snd (run_ticks cfg tris (fst (tick cfg tris obs' clk' s)) rest) = []"
      proof (rule run_ticks_cooling)
        fix obs'' clk'' assume "(obs'', clk'') \<in> set rest"
        from sp(2) [OF this]
        show "t_check clk'' - last_opportunity_time (fst (tick cfg tris obs' clk' s)) < 2"
          unfolding set .
      qed
      then show ?thesis unfolding input run_ticks_Cons Some by simp
    qed
  qed
  with tick_last_opportunity_time [of cfg tris obs clk s] show ?thesis by blast
qed

theorem cooldown_debounce_witness:
  "span_less two_passes 2 \<and>
   length (snd (run_ticks example_config [example_triangle, second_triangle]
                  example_scheduler two_passes)) \<le> 1 \<and>
   snd (run_ticks example_config [example_triangle, second_triangle]
          example_scheduler two_passes) = [example_opportunity] \<and>
   2 \<le> t_check example_clock - last_opportunity_time example_scheduler \<and>
   last_opportunity_time (fst (tick example_config [example_triangle, second_triangle]
       rounding_books example_clock example_scheduler)) = t_set example_clock"
proof -
  let ?T = "[example_triangle, second_triangle]"
  have h: "span_less two_passes 2"
    by (simp add: span_less_def readings_def two_passes_def example_clock_def later_clock_def)
  note w = cooldown_debounce [OF h, of example_config ?T example_scheduler
      rounding_books example_clock]
  have m: "MIN_PROFIT example_config \<le> 4685 / 1000" by (simp add: example_config_def)
  have c: "\<not> t_check example_clock - last_opportunity_time example_scheduler < 2"
    by (simp add: example_clock_def example_scheduler_def)
  note d = tick_dispatch [OF rounding_scan m c]
  have d1: "fst (snd (tick example_config ?T rounding_books example_clock example_scheduler)) =
      Some example_opportunity"
    unfolding d by (simp add: example_opportunity_def)
  have cool: "t_check later_clock - last_opportunity_time
      (fst (tick example_config ?T rounding_books example_clock example_scheduler)) < 2"
    unfolding d by (simp add: later_clock_def example_clock_def)
  have d2: "fst (snd (tick example_config ?T rounding_books later_clock
      (fst (tick example_config ?T rounding_books example_clock example_scheduler)))) = None"
    by (rule tick_cooling [OF cool])
  have run: "snd (run_ticks example_config ?T example_scheduler two_passes) = [example_opportunity]"
    unfolding two_passes_def run_ticks_Cons d1 d2 by simp
  from w have a: "length (snd (run_ticks example_config ?T example_scheduler two_passes)) \<le> 1"
    by (rule conjunct1)
  from w d1 have b: "2 \<le> t_check example_clock - last_opportunity_time example_scheduler \<and>
     last_opportunity_time (fst (tick example_config ?T rounding_books example_clock
        example_scheduler)) = t_set example_clock"
    by blast
  from h a run conjunct1 [OF b] conjunct2 [OF b] show ?thesis by (intro conjI)
qed

section \<open>One dispatch per pass, of a best result\<close>

text \<open>
  Claim C7. One pass of the main loop calls \<^verbatim>\<open>execute\<close> at most once: the count of
  trades grows by at most one, and the executor is unchanged when nothing is dispatched.
  When an opportunity is dispatched, the executor is the one \<^verbatim>\<open>execute\<close> returns for it,
  the opportunity is the simulation result of one of the triangles, and no simulation
  result of that pass has a larger \<^verbatim>\<open>profit_pct\<close>.
\<close>

theorem tick_dispatches_best:
  "total_trades (stats (executor_of (fst (tick cfg tris obs clk s))))
     \<le> total_trades (stats (executor_of s)) + 1 \<and>
   (fst (snd (tick cfg tris obs clk s)) = None \<longrightarrow>
      executor_of (fst (tick cfg tris obs clk s)) = executor_of s) \<and>
   (\<forall>opp. fst (snd (tick cfg tris obs clk s)) = Some opp \<longrightarrow>
      executor_of (fst (tick cfg tris obs clk s)) =
        fst (execute cfg (executor_of s) opp (t_exec clk) (now_iso clk)) \<and>
      (\<exists>t \<in> set tris. simulate_triangle cfg obs t (TRADE_AMOUNT cfg) (now_hms clk) = Some opp) \<and>
      (\<forall>t \<in> set tris. \<forall>r. simulate_triangle cfg obs t (TRADE_AMOUNT cfg) (now_hms clk) = Some r \<longrightarrow>
         profit_pct r \<le> profit_pct opp))"
proof -
  obtain bo bp where sc: "scan_loop cfg obs (now_hms clk) tris None 0 = (bo, bp)"
    by (cases "scan_loop cfg obs (now_hms clk) tris None 0")
  show ?thesis
  proof (cases "bo = None \<or> \<not> MIN_PROFIT cfg \<le> bp \<or> t_check clk - last_opportunity_time s < 2")
    case True
    note i = tick_idle [OF sc True]
    show ?thesis unfolding i by simp
  next
    case False
    then obtain best where b: "bo = Some best" by (cases bo) simp_all
    from False have m: "MIN_PROFIT cfg \<le> bp" and c: "\<not> t_check clk - last_opportunity_time s < 2"
      by simp_all
    note sc' = sc [unfolded b]
    note d = tick_dispatch [OF sc' m c]
    from scan_loop_best(2) [OF sc']
    have src: "\<exists>t \<in> set tris. simulate_triangle cfg obs t (TRADE_AMOUNT cfg) (now_hms clk) = Some best" .
    have up: "\<forall>t \<in> set tris. \<forall>r. simulate_triangle cfg obs t (TRADE_AMOUNT cfg) (now_hms clk) = Some r \<longrightarrow>
         profit_pct r \<le> profit_pct best"
      using scan_loop_best(3) [OF sc'] by blast
    show ?thesis unfolding d using src up by (simp add: execute_total)
  qed
qed

theorem tick_dispatches_best_witness:
  "fst (snd (tick example_config [example_triangle, second_triangle] rounding_books
               example_clock example_scheduler)) =
     Some \<lparr>opp_triangle = tri_string example_triangle, opp_pairs = pairs example_triangle,
           profit_pct = 4685 / 1000, profit_usd = 14 / 100, opp_timestamp = ''12:00:00''\<rparr> \<and>
   total_trades (stats (executor_of (fst (tick example_config [example_triangle, second_triangle]
       rounding_books example_clock example_scheduler)))) \<le>
     total_trades (stats (executor_of example_scheduler)) + 1 \<and>
   simulate_triangle example_config rounding_books second_triangle (TRADE_AMOUNT example_config)
     (now_hms example_clock) =
     Some \<lparr>opp_triangle = tri_string second_triangle, opp_pairs = pairs second_triangle,
           profit_pct = 4685 / 1000, profit_usd = 14 / 100, opp_timestamp = ''12:00:00''\<rparr> \<and>
   profit_pct \<lparr>opp_triangle = tri_string second_triangle, opp_pairs = pairs second_triangle,
           profit_pct = 4685 / 1000, profit_usd = 14 / 100, opp_timestamp = ''12:00:00''\<rparr>
     \<le> profit_pct \<lparr>opp_triangle = tri_string example_triangle, opp_pairs = pairs example_triangle,
           profit_pct = 4685 / 1000, profit_usd = 14 / 100, opp_timestamp = ''12:00:00''\<rparr>"
proof -
  note w = tick_dispatches_best [of example_config "[example_triangle, second_triangle]"
      rounding_books example_clock example_scheduler]
  have f: "fst (snd (tick example_config [example_triangle, second_triangle] rounding_books
               example_clock example_scheduler)) =
     Some \<lparr>opp_triangle = tri_string example_triangle, opp_pairs = pairs example_triangle,
           profit_pct = 4685 / 1000, profit_usd = 14 / 100, opp_timestamp = ''12:00:00''\<rparr>"
    unfolding tick_def rounding_scan
    by (simp add: Let_def example_config_def example_clock_def example_scheduler_def split: prod.splits)
  have m: "second_triangle \<in> set [example_triangle, second_triangle]" by simp
  from w have t: "total_trades (stats (executor_of (fst (tick example_config [example_triangle, second_triangle]
       rounding_books example_clock example_scheduler)))) \<le>
     total_trades (stats (executor_of example_scheduler)) + 1" by (rule conjunct1)
  from w f rounding_second m
  have c: "profit_pct \<lparr>opp_triangle = tri_string second_triangle, opp_pairs = pairs second_triangle,
           profit_pct = 4685 / 1000, profit_usd = 14 / 100, opp_timestamp = ''12:00:00''\<rparr>
     \<le> profit_pct \<lparr>opp_triangle = tri_string example_triangle, opp_pairs = pairs example_triangle,
           profit_pct = 4685 / 1000, profit_usd = 14 / 100, opp_timestamp = ''12:00:00''\<rparr>"
    by blast
  from f t rounding_second c show ?thesis by (intro conjI)
qed

section \<open>The bounded trade history\<close>

lemma take_append_take: "take n (xs @ take n ys) = take n (xs @ ys)"
  by (simp add: min_def)

lemma execute_all_history:
  "length (trades ex) \<le> 100 \<Longrightarrow>
   trades (fst (execute_all cfg ex calls)) =
     take 100 (rev (snd (execute_all cfg ex calls)) @ trades ex) \<and>
   length (snd (execute_all cfg ex calls)) = length calls \<and>
   total_trades (stats (fst (execute_all cfg ex calls))) =
     total_trades (stats ex) + int (length calls)"
proof (induction calls arbitrary: ex)
  case Nil
  then show ?case by simp
next
  case (Cons call calls)
  obtain opp t stamp where call: "call = (opp, t, stamp)" by (cases call)
  let ?ex1 = "fst (execute cfg ex opp t stamp)"
  let ?tr = "fst (snd (execute cfg ex opp t stamp))"
  have f: "fst (execute_all cfg ex (call # calls)) = fst (execute_all cfg ?ex1 calls)"
    unfolding call by (simp split: prod.splits)
  have s: "snd (execute_all cfg ex (call # calls)) = ?tr # snd (execute_all cfg ?ex1 calls)"
    unfolding call by (simp split: prod.splits)
  have t1: "trades ?ex1 = take 100 (?tr # trades ex)"
    by (simp add: execute_trades appendleft_def)
  then have "length (trades ?ex1) \<le> 100" by simp
  note ih = Cons.IH [OF this]
  have "trades (fst (execute_all cfg ?ex1 calls)) =
      take 100 (rev (snd (execute_all cfg ?ex1 calls)) @ take 100 (?tr # trades ex))"
    using ih t1 by simp
  also have "\<dots> = take 100 (rev (snd (execute_all cfg ?ex1 calls)) @ ?tr # trades ex)"
    by (rule take_append_take)
  finally have a: "trades (fst (execute_all cfg ex (call # calls))) =
     take 100 (rev (snd (execute_all cfg ex (call # calls))) @ trades ex)"
    unfolding f s by simp
  have b: "length (snd (execute_all cfg ex (call # calls))) = length (call # calls)"
    unfolding s using ih by simp
  have c: "total_trades (stats (fst (execute_all cfg ex (call # calls)))) =
     total_trades (stats ex) + int (length (call # calls))"
    unfolding f using ih by (simp add: execute_total)
  from a b c show ?case by (intro conjI)
qed

text \<open>
  Claim C8. After more than 100 calls of \<^verbatim>\<open>execute\<close> on a fresh executor, the history
  holds exactly 100 trades, the most recent ones with the newest first, while
  \<^verbatim>\<open>total_trades\<close> equals the number of calls made; and every call of \<^verbatim>\<open>execute\<close>, on any
  executor, adds exactly one to \<^verbatim>\<open>total_trades\<close>.
\<close>

theorem history_bounded:
  assumes "length calls > 100"
  shows "trades (fst (execute_all cfg (executor_init exch) calls)) =
           take 100 (rev (snd (execute_all cfg (executor_init exch) calls))) \<and>
         length (trades (fst (execute_all cfg (executor_init exch) calls))) = 100 \<and>
         length (snd (execute_all cfg (executor_init exch) calls)) = length calls \<and>
         total_trades (stats (fst (execute_all cfg (executor_init exch) calls))) = int (length calls) \<and>
         total_trades (stats (fst (execute cfg ex opp t stamp))) = total_trades (stats ex) + 1"
proof -
  have e: "trades (executor_init exch) = []" "total_trades (stats (executor_init exch)) = 0"
    by (simp_all add: executor_init_def)
  then have "length (trades (executor_init exch)) \<le> 100" by simp
  note h = execute_all_history [OF this, of cfg calls]
  from h have a: "trades (fst (execute_all cfg (executor_init exch) calls)) =
           take 100 (rev (snd (execute_all cfg (executor_init exch) calls)))"
    by (simp add: e)
  from h have c: "length (snd (execute_all cfg (executor_init exch) calls)) = length calls"
    by simp
  from a c assms have b: "length (trades (fst (execute_all cfg (executor_init exch) calls))) = 100"
    by simp
  from h have d: "total_trades (stats (fst (execute_all cfg (executor_init exch) calls))) = int (length calls)"
    by (simp add: e)
  from a b c d execute_total [of cfg ex opp t stamp] show ?thesis by (intro conjI)
qed

theorem history_bounded_witness:
  "length (replicate 101 (example_opportunity, 1700000000 :: rat, ''2023-11-14T12:00:00'')) > 100 \<and>
   length (trades (fst (execute_all example_config (executor_init example_exchange)
     (replicate 101 (example_opportunity, 1700000000, ''2023-11-14T12:00:00''))))) = 100 \<and>
   total_trades (stats (fst (execute_all example_config (executor_init example_exchange)
     (replicate 101 (example_opportunity, 1700000000, ''2023-11-14T12:00:00''))))) = 101"
proof -
  have h: "length (replicate 101 (example_opportunity, 1700000000 :: rat, ''2023-11-14T12:00:00'')) > 100"
    by simp
  note w = history_bounded [OF h, of example_config example_exchange
      "executor_init example_exchange" example_opportunity 1700000000 "''2023-11-14T12:00:00''"]
  from w have b: "length (trades (fst (execute_all example_config (executor_init example_exchange)
     (replicate 101 (example_opportunity, 1700000000, ''2023-11-14T12:00:00''))))) = 100"
    by (rule conjunct2 [THEN conjunct1])
  from w have d: "total_trades (stats (fst (execute_all example_config (executor_init example_exchange)
     (replicate 101 (example_opportunity, 1700000000, ''2023-11-14T12:00:00''))))) =
       int (length (replicate 101 (example_opportunity, 1700000000 :: rat, ''2023-11-14T12:00:00'')))"
    by (rule conjunct2 [THEN conjunct2, THEN conjunct2, THEN conjunct1])
  have d': "total_trades (stats (fst (execute_all example_config (executor_init example_exchange)
     (replicate 101 (example_opportunity, 1700000000, ''2023-11-14T12:00:00''))))) = 101"
    unfolding d by simp
  from h b d' show ?thesis by (intro conjI)
qed

section \<open>Live mode\<close>

lemma execute_live:
  assumes "\<not> DRY_RUN cfg"
  shows "execute cfg ex opp t stamp =
     (ex\<lparr>trades := appendleft 100
            \<lparr>trade_id = ''TR'' @ str_int (py_int t), trade_triangle = opp_triangle opp,
             trade_profit_pct = profit_pct opp, trade_profit_usd = profit_usd opp,
             status = ''executed'', error = None, trade_timestamp = stamp\<rparr> (trades ex),
         stats := update_stats (stats ex)
            \<lparr>trade_id = ''TR'' @ str_int (py_int t), trade_triangle = opp_triangle opp,
             trade_profit_pct = profit_pct opp, trade_profit_usd = profit_usd opp,
             status = ''executed'', error = None, trade_timestamp = stamp\<rparr>\<rparr>,
      \<lparr>trade_id = ''TR'' @ str_int (py_int t), trade_triangle = opp_triangle opp,
       trade_profit_pct = profit_pct opp, trade_profit_usd = profit_usd opp,
       status = ''executed'', error = None, trade_timestamp = stamp\<rparr>,
      Found_notice (opp_triangle opp) # Executing_notice # live_legs 0 (opp_pairs opp) @ [Completed_notice])"
  using assms by (simp add: execute_def execute_live_try_def Let_def)

text \<open>
  Claim C9, as amended. In live mode \<^verbatim>\<open>execute\<close> submits no order: for each leg in order it
  prints the leg and waits 0.1 s, and nothing in the \<^verbatim>\<open>try\<close> block can fail, so the recorded
  trade always has status \<^verbatim>\<open>executed\<close>, no error detail and the profit figures of the
  opportunity. Exactly one trade is recorded by each call, and the exchange held by the
  executor is neither called nor changed.
\<close>

theorem live_execute_records_executed:
  assumes "\<not> DRY_RUN cfg"
  shows "status (fst (snd (execute cfg ex opp t stamp))) = ''executed'' \<and>
         error (fst (snd (execute cfg ex opp t stamp))) = None \<and>
         trade_profit_pct (fst (snd (execute cfg ex opp t stamp))) = profit_pct opp \<and>
         trade_profit_usd (fst (snd (execute cfg ex opp t stamp))) = profit_usd opp \<and>
         snd (snd (execute cfg ex opp t stamp)) =
           Found_notice (opp_triangle opp) # Executing_notice # live_legs 0 (opp_pairs opp)
             @ [Completed_notice] \<and>
         live_legs 0 [p1, p2, p3] =
           [Leg_notice 1 p1, Sleep (1 / 10), Leg_notice 2 p2, Sleep (1 / 10),
            Leg_notice 3 p3, Sleep (1 / 10)] \<and>
         trades (fst (execute cfg ex opp t stamp)) =
           appendleft 100 (fst (snd (execute cfg ex opp t stamp))) (trades ex) \<and>
         total_trades (stats (fst (execute cfg ex opp t stamp))) = total_trades (stats ex) + 1 \<and>
         exchange_of (fst (execute cfg ex opp t stamp)) = exchange_of ex"
proof -
  note e = execute_live [OF assms, of ex opp t stamp]
  have l: "live_legs 0 [p1, p2, p3] =
           [Leg_notice 1 p1, Sleep (1 / 10), Leg_notice 2 p2, Sleep (1 / 10),
            Leg_notice 3 p3, Sleep (1 / 10)]"
    by simp
  show ?thesis unfolding e l by (simp add: update_stats_total)
qed

theorem live_execute_records_executed_witness:
  "\<not> DRY_RUN live_config \<and>
   status (fst (snd (execute live_config (executor_init example_exchange) example_opportunity
      1700000000 ''2023-11-14T12:00:00''))) = ''executed'' \<and>
   snd (snd (execute live_config (executor_init example_exchange) example_opportunity
      1700000000 ''2023-11-14T12:00:00'')) =
     [Found_notice (tri_string example_triangle), Executing_notice,
      Leg_notice 1 ''BTC/USDT'', Sleep (1 / 10), Leg_notice 2 ''ETH/BTC'', Sleep (1 / 10),
      Leg_notice 3 ''ETH/USDT'', Sleep (1 / 10), Completed_notice] \<and>
   total_trades (stats (fst (execute live_config (executor_init example_exchange) example_opportunity
      1700000000 ''2023-11-14T12:00:00''))) = 1"
proof -
  have h: "\<not> DRY_RUN live_config" by (simp add: live_config_def example_config_def)
  note w = live_execute_records_executed [OF h, of "executor_init example_exchange"
      example_opportunity 1700000000 "''2023-11-14T12:00:00''" "''BTC/USDT''" "''ETH/BTC''" "''ETH/USDT''"]
  from w have a: "status (fst (snd (execute live_config (executor_init example_exchange) example_opportunity
      1700000000 ''2023-11-14T12:00:00''))) = ''executed''" by (rule conjunct1)
  from w have b: "snd (snd (execute live_config (executor_init example_exchange) example_opportunity
      1700000000 ''2023-11-14T12:00:00'')) =
     [Found_notice (tri_string example_triangle), Executing_notice,
      Leg_notice 1 ''BTC/USDT'', Sleep (1 / 10), Leg_notice 2 ''ETH/BTC'', Sleep (1 / 10),
      Leg_notice 3 ''ETH/USDT'', Sleep (1 / 10), Completed_notice]"
    by (simp add: example_opportunity_def example_triangle_def)
  from w have c: "total_trades (stats (fst (execute live_config (executor_init example_exchange) example_opportunity
      1700000000 ''2023-11-14T12:00:00''))) = 1"
    by (simp add: executor_init_def)
  from h a b c show ?thesis by (intro conjI)
qed

theorem live_execute_counterexample:
  "\<not> DRY_RUN live_config \<and>
   submitLeg failing_exchange ''BTC/USDT'' ''buy'' 3 = Inl ''rejected'' \<and>
   exchange_of (executor_init failing_exchange) = failing_exchange \<and>
   status (fst (snd (execute live_config (executor_init failing_exchange) example_opportunity
      1700000000 ''2023-11-14T12:00:00''))) = ''executed'' \<and>
   error (fst (snd (execute live_config (executor_init failing_exchange) example_opportunity
      1700000000 ''2023-11-14T12:00:00''))) = None"
  by (simp add: live_config_def example_config_def failing_exchange_def executor_init_def
      execute_def execute_live_try_def Let_def)

end
